theory Spec2Isabelle
  imports Complex_Main "HOL-Library.Log_Nat"
begin

section \<open>The document store of server.js\<close>

text \<open>
  The server keeps eight Mongoose collections. Each collection is a list of documents in
  natural (insertion) order, so that \<open>findOne\<close> returns the first match. An ObjectId is a
  natural number handed out by the counter \<open>nextId\<close>; a date is a natural number supplied
  with the request (the value of \<open>Date.now\<close> when the handler runs).

  A JavaScript Number is an IEEE-754 double. Its value is a rational here, and every
  addition and division of the rating aggregate rounds its exact result to the nearest
  double (\<open>toDouble\<close> below). The number a request carries is the double that the JSON
  parser produced. Path and body identifiers are taken as well-formed ObjectIds; a body field that is
  \<open>undefined\<close> is \<open>None\<close>.
\<close>

type_synonym objid = nat
type_synonym date = nat

record user =
  u_id :: objid
  u_username :: string
  u_password :: string
  u_school :: "objid option"
  u_class :: "objid option"
  u_isSetup :: bool
  u_createdAt :: date

record school =
  s_id :: objid
  s_name :: string
  s_createdAt :: date

record classdoc =
  c_id :: objid
  c_name :: string
  c_school :: objid
  c_createdAt :: date

record teacher =
  t_id :: objid
  t_name :: string
  t_qualifications :: string
  t_imageUrl :: string
  t_class :: objid
  t_school :: objid
  t_averageRating :: rat
  t_totalRatings :: nat
  t_createdAt :: date

record review =
  rv_id :: objid
  rv_teacher :: objid
  rv_user :: objid
  rv_username :: string
  rv_text :: string
  rv_createdAt :: date
  rv_updatedAt :: date

record rating =
  rt_id :: objid
  rt_teacher :: objid
  rt_user :: objid
  rt_rating :: rat
  rt_createdAt :: date

record discussion =
  d_id :: objid
  d_user :: objid
  d_username :: string
  d_message :: string
  d_isPinned :: bool
  d_createdAt :: date

record adminConfig =
  ac_secret :: string
  ac_anonymousReviews :: bool
  ac_hideTeacherImages :: bool

record store =
  users :: "user list"
  schools :: "school list"
  classes :: "classdoc list"
  teachers :: "teacher list"
  reviews :: "review list"
  ratings :: "rating list"
  discussions :: "discussion list"
  adminConfigs :: "adminConfig list"
  nextId :: objid

subsection \<open>Responses\<close>

text \<open>
  Every handler ends in \<open>res.json\<close> or \<open>res.status(n).json\<close>. An exception caught by the
  handler's \<open>catch\<close> is answered with status 400 and the exception's message; the message
  text comes from the library, so only the kind of exception is kept.
\<close>

datatype thrown = ValidationError | TypeError | CastError | HashError

datatype body =
    JError string
  | JThrown thrown
  | JMessage string
  | JNull
  | JToken objid string bool
  | JSchool school
  | JClass classdoc
  | JTeacher teacher
  | JTeachers "teacher list"
  | JReview review
  | JReviews "review list"
  | JRating rating
  | JDiscussion discussion
  | JConfig bool bool

record response =
  status :: nat
  body :: body

definition json :: "body \<Rightarrow> response" where
  "json b = \<lparr>status = 200, body = b\<rparr>"

definition status_json :: "nat \<Rightarrow> body \<Rightarrow> response" where
  "status_json n b = \<lparr>status = n, body = b\<rparr>"

definition caught :: "thrown \<Rightarrow> response" where
  "caught e = status_json 400 (JThrown e)"

subsection \<open>JavaScript Numbers\<close>

text \<open>
  Rounding to binary64, to nearest and ties to even: the exponent \<open>e\<close> is chosen so that
  the significand \<open>q / 2 ^ e\<close> lies in [2^52, 2^53), and the significand is rounded to an
  integer. Overflow beyond 2^1024 and the subnormal range below 2^-1022 are not modelled:
  every stored rating lies between 1 and 5, so the sums and means of this program are far
  inside the normal range.
\<close>

definition pow2 :: "int \<Rightarrow> rat" where
  "pow2 e = (if 0 \<le> e then 2 ^ nat e else 1 / 2 ^ nat (- e))"

definition ilog2 :: "rat \<Rightarrow> int" where
  "ilog2 q = (let k = bitlen (fst (quotient_of q)) - bitlen (snd (quotient_of q))
              in if pow2 k \<le> q then k else k - 1)"

definition roundHalfEven :: "rat \<Rightarrow> int" where
  "roundHalfEven x =
     (let f = \<lfloor>x\<rfloor>; d = x - of_int f
      in if d < 1 / 2 then f else if 1 / 2 < d then f + 1 else if even f then f else f + 1)"

definition toDouble :: "rat \<Rightarrow> rat" where
  "toDouble q =
     (if q = 0 then 0
      else let e = ilog2 \<bar>q\<bar> - 52 in of_int (roundHalfEven (q / pow2 e)) * pow2 e)"

text \<open>\<open>a + b\<close> and \<open>a / b\<close> on Numbers (the divisor is not zero where \<open>jsDiv\<close> is used).\<close>

definition jsAdd :: "rat \<Rightarrow> rat \<Rightarrow> rat" where
  "jsAdd a b = toDouble (a + b)"

definition jsDiv :: "rat \<Rightarrow> rat \<Rightarrow> rat" where
  "jsDiv a b = toDouble (a / b)"

subsection \<open>Collection operations of Mongoose\<close>

definition findOne :: "('a \<Rightarrow> bool) \<Rightarrow> 'a list \<Rightarrow> 'a option" where
  "findOne P xs = List.find P xs"

fun updateOne :: "('a \<Rightarrow> bool) \<Rightarrow> ('a \<Rightarrow> 'a) \<Rightarrow> 'a list \<Rightarrow> 'a list" where
  "updateOne P f [] = []"
| "updateOne P f (x # xs) = (if P x then f x # xs else x # updateOne P f xs)"

fun deleteOne :: "('a \<Rightarrow> bool) \<Rightarrow> 'a list \<Rightarrow> 'a list" where
  "deleteOne P [] = []"
| "deleteOne P (x # xs) = (if P x then xs else x # deleteOne P xs)"

definition deleteMany :: "('a \<Rightarrow> bool) \<Rightarrow> 'a list \<Rightarrow> 'a list" where
  "deleteMany P xs = filter (\<lambda>x. \<not> P x) xs"

text \<open>The \<open>required\<close> validator of a String path rejects a missing and an empty string.\<close>

definition requiredString :: "string option \<Rightarrow> bool" where
  "requiredString v = (case v of None \<Rightarrow> False | Some s \<Rightarrow> s \<noteq> [])"

subsection \<open>Authentication middleware\<close>

text \<open>
  \<open>auth\<close> (lines 148-163): the argument is the \<open>userId\<close> of the verified token, \<open>None\<close> when
  the token is missing or does not verify. \<open>adminAuth\<close> (lines 487-499) gets the
  \<open>isAdmin\<close> flag of the verified token, \<open>False\<close> when there is none.
\<close>

definition auth :: "store \<Rightarrow> objid option \<Rightarrow> user option" where
  "auth st tok =
     (case tok of None \<Rightarrow> None
      | Some userId \<Rightarrow> findOne (\<lambda>u. u_id u = userId) (users st))"

definition unauthenticated :: response where
  "unauthenticated = status_json 401 (JError ''Please authenticate'')"

definition adminRequired :: response where
  "adminRequired = status_json 401 (JError ''Admin authentication required'')"

section \<open>Handlers\<close>

subsection \<open>Startup\<close>

definition initializeAdminConfig :: "store \<Rightarrow> string \<Rightarrow> store" where
  "initializeAdminConfig st hashedSecret =
     (case findOne (\<lambda>_. True) (adminConfigs st) of
        Some config \<Rightarrow> st
      | None \<Rightarrow> st\<lparr>adminConfigs := adminConfigs st @
          [\<lparr>ac_secret = hashedSecret, ac_anonymousReviews = False,
            ac_hideTeacherImages = False\<rparr>]\<rparr>)"

subsection \<open>User routes\<close>

text \<open>
  POST /api/register (lines 171-191). \<open>hashed\<close> is what \<open>bcrypt.hash(password, 10)\<close>
  returns; bcrypt throws when the password is not a string.
\<close>

definition postRegister ::
  "store \<Rightarrow> string option \<Rightarrow> string option \<Rightarrow> string \<Rightarrow> date \<Rightarrow> response \<times> store" where
  "postRegister st username password hashed now =
     (case findOne (\<lambda>u. Some (u_username u) = username) (users st) of
        Some existingUser \<Rightarrow> (status_json 400 (JError ''Username already exists''), st)
      | None \<Rightarrow>
          if password = None then (caught HashError, st)
          else if \<not> requiredString username \<or> hashed = [] then (caught ValidationError, st)
          else
            let newUser = \<lparr>u_id = nextId st, u_username = the username, u_password = hashed,
                  u_school = None, u_class = None, u_isSetup = False, u_createdAt = now\<rparr>
            in (json (JToken (u_id newUser) (u_username newUser) (u_isSetup newUser)),
                st\<lparr>users := users st @ [newUser], nextId := Suc (nextId st)\<rparr>))"

text \<open>POST /api/setup (lines 223-241).\<close>

definition postSetup ::
  "store \<Rightarrow> objid option \<Rightarrow> objid option \<Rightarrow> objid option \<Rightarrow> response \<times> store" where
  "postSetup st tok schoolId classId =
     (case auth st tok of
        None \<Rightarrow> (unauthenticated, st)
      | Some authed \<Rightarrow>
          (case findOne (\<lambda>u. u_id u = u_id authed) (users st) of
             None \<Rightarrow> (caught TypeError, st)
           | Some usr \<Rightarrow>
               if u_isSetup usr
               then (status_json 400 (JError ''Setup already completed''), st)
               else (json (JMessage ''Setup completed successfully''),
                     st\<lparr>users := updateOne (\<lambda>u. u_id u = u_id usr)
                        (\<lambda>u. u\<lparr>u_school := schoolId, u_class := classId, u_isSetup := True\<rparr>)
                        (users st)\<rparr>)))"

subsection \<open>Teacher routes\<close>

text \<open>\<open>config && config.hideTeacherImages\<close> and \<open>config && config.anonymousReviews\<close>.\<close>

definition hideTeacherImages :: "adminConfig option \<Rightarrow> bool" where
  "hideTeacherImages config = (case config of None \<Rightarrow> False | Some c \<Rightarrow> ac_hideTeacherImages c)"

definition anonymousReviews :: "adminConfig option \<Rightarrow> bool" where
  "anonymousReviews config = (case config of None \<Rightarrow> False | Some c \<Rightarrow> ac_anonymousReviews c)"

text \<open>GET /api/teachers (lines 263-286).\<close>

definition getTeachers :: "store \<Rightarrow> objid option \<Rightarrow> response \<times> store" where
  "getTeachers st tok =
     (case auth st tok of
        None \<Rightarrow> (unauthenticated, st)
      | Some authed \<Rightarrow>
          (case findOne (\<lambda>u. u_id u = u_id authed) (users st) of
             None \<Rightarrow> (caught TypeError, st)
           | Some usr \<Rightarrow>
               if \<not> u_isSetup usr
               then (status_json 400 (JError ''Please complete setup first''), st)
               else
                 let config = findOne (\<lambda>_. True) (adminConfigs st);
                     found = filter (\<lambda>t. Some (t_class t) = u_class usr) (teachers st);
                     teachersData = map (\<lambda>t. if hideTeacherImages config
                                              then t\<lparr>t_imageUrl := []\<rparr> else t) found
                 in (json (JTeachers teachersData), st)))"

text \<open>GET /api/teachers/:teacherId (lines 288-305).\<close>

definition getTeacher :: "store \<Rightarrow> objid option \<Rightarrow> objid \<Rightarrow> response \<times> store" where
  "getTeacher st tok teacherId =
     (case auth st tok of
        None \<Rightarrow> (unauthenticated, st)
      | Some authed \<Rightarrow>
          (case findOne (\<lambda>t. t_id t = teacherId) (teachers st) of
             None \<Rightarrow> (status_json 404 (JError ''Teacher not found''), st)
           | Some t \<Rightarrow>
               let config = findOne (\<lambda>_. True) (adminConfigs st);
                   teacherObj = (if hideTeacherImages config then t\<lparr>t_imageUrl := []\<rparr> else t)
               in (json (JTeacher teacherObj), st)))"

subsection \<open>Review routes\<close>

text \<open>
  GET /api/teachers/:teacherId/reviews (lines 308-328): newest first, at most 50.
\<close>

definition getReviews :: "store \<Rightarrow> objid option \<Rightarrow> objid \<Rightarrow> response \<times> store" where
  "getReviews st tok teacherId =
     (case auth st tok of
        None \<Rightarrow> (unauthenticated, st)
      | Some authed \<Rightarrow>
          let config = findOne (\<lambda>_. True) (adminConfigs st);
              found = take 50 (sort_key (\<lambda>r. - int (rv_createdAt r))
                         (filter (\<lambda>r. rv_teacher r = teacherId) (reviews st)));
              shown = (if anonymousReviews config
                       then map (\<lambda>r. r\<lparr>rv_username := ''Anonymous''\<rparr>) found else found)
          in (json (JReviews shown), st))"

text \<open>GET /api/teachers/:teacherId/my-review (lines 330-340).\<close>

definition getMyReview :: "store \<Rightarrow> objid option \<Rightarrow> objid \<Rightarrow> response \<times> store" where
  "getMyReview st tok teacherId =
     (case auth st tok of
        None \<Rightarrow> (unauthenticated, st)
      | Some authed \<Rightarrow>
          (case findOne (\<lambda>r. rv_teacher r = teacherId \<and> rv_user r = u_id authed) (reviews st) of
             None \<Rightarrow> (json JNull, st)
           | Some r \<Rightarrow> (json (JReview r), st)))"

text \<open>POST /api/teachers/:teacherId/reviews (lines 342-367).\<close>

definition postReview ::
  "store \<Rightarrow> objid option \<Rightarrow> objid \<Rightarrow> string option \<Rightarrow> date \<Rightarrow> response \<times> store" where
  "postReview st tok teacherId text now =
     (case auth st tok of
        None \<Rightarrow> (unauthenticated, st)
      | Some authed \<Rightarrow>
          (case findOne (\<lambda>r. rv_teacher r = teacherId \<and> rv_user r = u_id authed) (reviews st) of
             Some existingReview \<Rightarrow>
               (status_json 400 (JError ''You have already reviewed this teacher''), st)
           | None \<Rightarrow>
               (case findOne (\<lambda>u. u_id u = u_id authed) (users st) of
                  None \<Rightarrow> (caught TypeError, st)
                | Some usr \<Rightarrow>
                    if \<not> requiredString text then (caught ValidationError, st)
                    else
                      let r = \<lparr>rv_id = nextId st, rv_teacher = teacherId, rv_user = u_id authed,
                                rv_username = u_username usr, rv_text = the text,
                                rv_createdAt = now, rv_updatedAt = now\<rparr>
                      in (json (JReview r),
                          st\<lparr>reviews := reviews st @ [r], nextId := Suc (nextId st)\<rparr>))))"

text \<open>PUT /api/reviews/:reviewId (lines 369-386).\<close>

definition putReview ::
  "store \<Rightarrow> objid option \<Rightarrow> objid \<Rightarrow> string option \<Rightarrow> date \<Rightarrow> response \<times> store" where
  "putReview st tok reviewId text now =
     (case auth st tok of
        None \<Rightarrow> (unauthenticated, st)
      | Some authed \<Rightarrow>
          (case findOne (\<lambda>r. rv_id r = reviewId \<and> rv_user r = u_id authed) (reviews st) of
             None \<Rightarrow> (status_json 404 (JError ''Review not found''), st)
           | Some r \<Rightarrow>
               if \<not> requiredString text then (caught ValidationError, st)
               else
                 let r' = r\<lparr>rv_text := the text, rv_updatedAt := now\<rparr>
                 in (json (JReview r'),
                     st\<lparr>reviews := updateOne (\<lambda>x. rv_id x = rv_id r)
                        (\<lambda>x. x\<lparr>rv_text := the text, rv_updatedAt := now\<rparr>) (reviews st)\<rparr>)))"

subsection \<open>Rating routes\<close>

text \<open>\<open>rating: { type: Number, required: true, min: 1, max: 5 }\<close> (RatingSchema, line 105).\<close>

definition validRating :: "rat option \<Rightarrow> bool" where
  "validRating v = (case v of None \<Rightarrow> False | Some x \<Rightarrow> 1 \<le> x \<and> x \<le> 5)"

text \<open>
  Lines 405-419: overwrite the caller's rating in place, or create one. Both \<open>save\<close> and
  \<open>create\<close> run the schema's validators and throw before anything is written.
\<close>

definition upsertRating ::
  "store \<Rightarrow> objid \<Rightarrow> objid \<Rightarrow> rat option \<Rightarrow> date \<Rightarrow> thrown + rating \<times> store" where
  "upsertRating st teacherId userId rating now =
     (case findOne (\<lambda>r. rt_teacher r = teacherId \<and> rt_user r = userId) (ratings st) of
        Some existingRating \<Rightarrow>
          if \<not> validRating rating then Inl ValidationError
          else Inr (existingRating\<lparr>rt_rating := the rating\<rparr>,
                    st\<lparr>ratings := updateOne (\<lambda>r. rt_id r = rt_id existingRating)
                       (\<lambda>r. r\<lparr>rt_rating := the rating\<rparr>) (ratings st)\<rparr>)
      | None \<Rightarrow>
          if \<not> validRating rating then Inl ValidationError
          else
            let created = \<lparr>rt_id = nextId st, rt_teacher = teacherId, rt_user = userId,
                             rt_rating = the rating, rt_createdAt = now\<rparr>
            in Inr (created, st\<lparr>ratings := ratings st @ [created], nextId := Suc (nextId st)\<rparr>))"

text \<open>
  Line 423: \<open>ratings.reduce((sum, r) => sum + r.rating, 0) / ratings.length\<close>. On an empty
  list JavaScript computes \<open>0 / 0 = NaN\<close>, which is \<open>None\<close> here.
\<close>

definition avgRating :: "rating list \<Rightarrow> rat option" where
  "avgRating rs =
     (if length rs = 0 then None
      else Some (jsDiv (fold (\<lambda>r sum. jsAdd sum (rt_rating r)) rs 0) (of_nat (length rs))))"

text \<open>
  POST /api/teachers/:teacherId/ratings (lines 401-434). A \<open>NaN\<close> average is refused by the
  Number cast of \<open>findByIdAndUpdate\<close>, after the rating has been written.
\<close>

definition postRating ::
  "store \<Rightarrow> objid option \<Rightarrow> objid \<Rightarrow> rat option \<Rightarrow> date \<Rightarrow> response \<times> store" where
  "postRating st tok teacherId rating now =
     (case auth st tok of
        None \<Rightarrow> (unauthenticated, st)
      | Some authed \<Rightarrow>
          (case upsertRating st teacherId (u_id authed) rating now of
             Inl e \<Rightarrow> (caught e, st)
           | Inr (existingRating, st1) \<Rightarrow>
               let found = filter (\<lambda>r. rt_teacher r = teacherId) (ratings st1)
               in (case avgRating found of
                     None \<Rightarrow> (caught CastError, st1)
                   | Some avg \<Rightarrow>
                       (json (JRating existingRating),
                        st1\<lparr>teachers := updateOne (\<lambda>t. t_id t = teacherId)
                           (\<lambda>t. t\<lparr>t_averageRating := avg, t_totalRatings := length found\<rparr>)
                           (teachers st1)\<rparr>))))"

subsection \<open>Discussion routes\<close>

text \<open>POST /api/discussions (lines 448-463).\<close>

definition postDiscussion ::
  "store \<Rightarrow> objid option \<Rightarrow> string option \<Rightarrow> date \<Rightarrow> response \<times> store" where
  "postDiscussion st tok message now =
     (case auth st tok of
        None \<Rightarrow> (unauthenticated, st)
      | Some authed \<Rightarrow>
          (case findOne (\<lambda>u. u_id u = u_id authed) (users st) of
             None \<Rightarrow> (caught TypeError, st)
           | Some usr \<Rightarrow>
               if \<not> requiredString message then (caught ValidationError, st)
               else
                 let d = \<lparr>d_id = nextId st, d_user = u_id authed, d_username = u_username usr,
                           d_message = the message, d_isPinned = False, d_createdAt = now\<rparr>
                 in (json (JDiscussion d),
                     st\<lparr>discussions := discussions st @ [d], nextId := Suc (nextId st)\<rparr>)))"

subsection \<open>Admin routes\<close>

text \<open>
  PUT /api/admin/config (lines 514-534). With no AdminConfig document \<open>config\<close> is null and
  the handler throws a TypeError at the first property access or at \<open>config.save()\<close>.
\<close>

definition putConfig ::
  "store \<Rightarrow> bool \<Rightarrow> bool option \<Rightarrow> bool option \<Rightarrow> response \<times> store" where
  "putConfig st isAdmin anonymousReviewsB hideTeacherImagesB =
     (if \<not> isAdmin then (adminRequired, st)
      else
        (case findOne (\<lambda>_. True) (adminConfigs st) of
           None \<Rightarrow> (caught TypeError, st)
         | Some config \<Rightarrow>
             let c1 = (case anonymousReviewsB of None \<Rightarrow> config
                       | Some b \<Rightarrow> config\<lparr>ac_anonymousReviews := b\<rparr>);
                 c2 = (case hideTeacherImagesB of None \<Rightarrow> c1
                       | Some b \<Rightarrow> c1\<lparr>ac_hideTeacherImages := b\<rparr>)
             in (json (JConfig (ac_anonymousReviews c2) (ac_hideTeacherImages c2)),
                 st\<lparr>adminConfigs := updateOne (\<lambda>_. True) (\<lambda>_. c2) (adminConfigs st)\<rparr>)))"

text \<open>POST /api/admin/schools (lines 553-561).\<close>

definition adminPostSchool :: "store \<Rightarrow> bool \<Rightarrow> string option \<Rightarrow> date \<Rightarrow> response \<times> store" where
  "adminPostSchool st isAdmin name now =
     (if \<not> isAdmin then (adminRequired, st)
      else if \<not> requiredString name then (caught ValidationError, st)
      else
        let s = \<lparr>s_id = nextId st, s_name = the name, s_createdAt = now\<rparr>
        in (json (JSchool s), st\<lparr>schools := schools st @ [s], nextId := Suc (nextId st)\<rparr>))"

text \<open>DELETE /api/admin/schools/:schoolId (lines 563-572).\<close>

definition adminDeleteSchool :: "store \<Rightarrow> bool \<Rightarrow> objid \<Rightarrow> response \<times> store" where
  "adminDeleteSchool st isAdmin schoolId =
     (if \<not> isAdmin then (adminRequired, st)
      else (json (JMessage ''School deleted successfully''),
            st\<lparr>schools := deleteOne (\<lambda>s. s_id s = schoolId) (schools st),
               classes := deleteMany (\<lambda>c. c_school c = schoolId) (classes st),
               teachers := deleteMany (\<lambda>t. t_school t = schoolId) (teachers st)\<rparr>))"

text \<open>POST /api/admin/classes (lines 575-583).\<close>

definition adminPostClass ::
  "store \<Rightarrow> bool \<Rightarrow> string option \<Rightarrow> objid option \<Rightarrow> date \<Rightarrow> response \<times> store" where
  "adminPostClass st isAdmin name schoolId now =
     (if \<not> isAdmin then (adminRequired, st)
      else if \<not> requiredString name \<or> schoolId = None then (caught ValidationError, st)
      else
        let c = \<lparr>c_id = nextId st, c_name = the name, c_school = the schoolId, c_createdAt = now\<rparr>
        in (json (JClass c), st\<lparr>classes := classes st @ [c], nextId := Suc (nextId st)\<rparr>))"

text \<open>DELETE /api/admin/classes/:classId (lines 585-593).\<close>

definition adminDeleteClass :: "store \<Rightarrow> bool \<Rightarrow> objid \<Rightarrow> response \<times> store" where
  "adminDeleteClass st isAdmin classId =
     (if \<not> isAdmin then (adminRequired, st)
      else (json (JMessage ''Class deleted successfully''),
            st\<lparr>classes := deleteOne (\<lambda>c. c_id c = classId) (classes st),
               teachers := deleteMany (\<lambda>t. t_class t = classId) (teachers st)\<rparr>))"

text \<open>
  POST /api/admin/teachers (lines 608-622): \<open>averageRating\<close> and \<open>totalRatings\<close> are not in
  the created object and get the schema's defaults.
\<close>

definition adminPostTeacher ::
  "store \<Rightarrow> bool \<Rightarrow> string option \<Rightarrow> string option \<Rightarrow> string option \<Rightarrow> objid option \<Rightarrow>
     objid option \<Rightarrow> date \<Rightarrow> response \<times> store" where
  "adminPostTeacher st isAdmin name qualifications imageUrl classId schoolId now =
     (if \<not> isAdmin then (adminRequired, st)
      else if \<not> requiredString name \<or> \<not> requiredString qualifications
              \<or> \<not> requiredString imageUrl \<or> classId = None \<or> schoolId = None
      then (caught ValidationError, st)
      else
        let t = \<lparr>t_id = nextId st, t_name = the name, t_qualifications = the qualifications,
                  t_imageUrl = the imageUrl, t_class = the classId, t_school = the schoolId,
                  t_averageRating = 0, t_totalRatings = 0, t_createdAt = now\<rparr>
        in (json (JTeacher t), st\<lparr>teachers := teachers st @ [t], nextId := Suc (nextId st)\<rparr>))"

text \<open>
  PUT /api/admin/teachers/:teacherId (lines 624-636): \<open>findByIdAndUpdate\<close> with the three
  body fields, without validators; a field that is \<open>undefined\<close> is left as stored.
\<close>

definition putTeacherFields ::
  "string option \<Rightarrow> string option \<Rightarrow> string option \<Rightarrow> teacher \<Rightarrow> teacher" where
  "putTeacherFields name qualifications imageUrl t =
     t\<lparr>t_name := (case name of None \<Rightarrow> t_name t | Some v \<Rightarrow> v),
       t_qualifications := (case qualifications of None \<Rightarrow> t_qualifications t | Some v \<Rightarrow> v),
       t_imageUrl := (case imageUrl of None \<Rightarrow> t_imageUrl t | Some v \<Rightarrow> v)\<rparr>"

definition adminPutTeacher ::
  "store \<Rightarrow> bool \<Rightarrow> objid \<Rightarrow> string option \<Rightarrow> string option \<Rightarrow> string option \<Rightarrow>
     response \<times> store" where
  "adminPutTeacher st isAdmin teacherId name qualifications imageUrl =
     (if \<not> isAdmin then (adminRequired, st)
      else
        (case findOne (\<lambda>t. t_id t = teacherId) (teachers st) of
           None \<Rightarrow> (json JNull, st)
         | Some t \<Rightarrow>
             (json (JTeacher (putTeacherFields name qualifications imageUrl t)),
              st\<lparr>teachers := updateOne (\<lambda>t. t_id t = teacherId)
                 (putTeacherFields name qualifications imageUrl) (teachers st)\<rparr>)))"

text \<open>DELETE /api/admin/teachers/:teacherId (lines 638-647).\<close>

definition adminDeleteTeacher :: "store \<Rightarrow> bool \<Rightarrow> objid \<Rightarrow> response \<times> store" where
  "adminDeleteTeacher st isAdmin teacherId =
     (if \<not> isAdmin then (adminRequired, st)
      else (json (JMessage ''Teacher deleted successfully''),
            st\<lparr>teachers := deleteOne (\<lambda>t. t_id t = teacherId) (teachers st),
               reviews := deleteMany (\<lambda>r. rv_teacher r = teacherId) (reviews st),
               ratings := deleteMany (\<lambda>r. rt_teacher r = teacherId) (ratings st)\<rparr>))"

text \<open>DELETE /api/admin/reviews/:reviewId (lines 661-668).\<close>

definition adminDeleteReview :: "store \<Rightarrow> bool \<Rightarrow> objid \<Rightarrow> response \<times> store" where
  "adminDeleteReview st isAdmin reviewId =
     (if \<not> isAdmin then (adminRequired, st)
      else (json (JMessage ''Review deleted successfully''),
            st\<lparr>reviews := deleteOne (\<lambda>r. rv_id r = reviewId) (reviews st)\<rparr>))"

text \<open>DELETE /api/admin/users/:userId (lines 684-694).\<close>

definition adminDeleteUser :: "store \<Rightarrow> bool \<Rightarrow> objid \<Rightarrow> response \<times> store" where
  "adminDeleteUser st isAdmin userId =
     (if \<not> isAdmin then (adminRequired, st)
      else (json (JMessage ''User deleted successfully''),
            st\<lparr>users := deleteOne (\<lambda>u. u_id u = userId) (users st),
               reviews := deleteMany (\<lambda>r. rv_user r = userId) (reviews st),
               ratings := deleteMany (\<lambda>r. rt_user r = userId) (ratings st),
               discussions := deleteMany (\<lambda>d. d_user d = userId) (discussions st)\<rparr>))"

text \<open>POST /api/admin/users/:userId/reset-password (lines 696-705).\<close>

definition adminResetPassword ::
  "store \<Rightarrow> bool \<Rightarrow> objid \<Rightarrow> string option \<Rightarrow> string \<Rightarrow> response \<times> store" where
  "adminResetPassword st isAdmin userId newPassword hashed =
     (if \<not> isAdmin then (adminRequired, st)
      else if newPassword = None then (caught HashError, st)
      else (json (JMessage ''Password reset successfully''),
            st\<lparr>users := updateOne (\<lambda>u. u_id u = userId) (\<lambda>u. u\<lparr>u_password := hashed\<rparr>)
               (users st)\<rparr>))"

text \<open>PUT /api/admin/discussions/:discussionId/pin (lines 708-717).\<close>

definition adminPinDiscussion :: "store \<Rightarrow> bool \<Rightarrow> objid \<Rightarrow> response \<times> store" where
  "adminPinDiscussion st isAdmin discussionId =
     (if \<not> isAdmin then (adminRequired, st)
      else
        (case findOne (\<lambda>d. d_id d = discussionId) (discussions st) of
           None \<Rightarrow> (caught TypeError, st)
         | Some d \<Rightarrow>
             (json (JDiscussion (d\<lparr>d_isPinned := \<not> d_isPinned d\<rparr>)),
              st\<lparr>discussions := updateOne (\<lambda>x. d_id x = d_id d)
                 (\<lambda>x. x\<lparr>d_isPinned := \<not> d_isPinned d\<rparr>) (discussions st)\<rparr>)))"

text \<open>DELETE /api/admin/discussions/:discussionId (lines 719-726).\<close>

definition adminDeleteDiscussion :: "store \<Rightarrow> bool \<Rightarrow> objid \<Rightarrow> response \<times> store" where
  "adminDeleteDiscussion st isAdmin discussionId =
     (if \<not> isAdmin then (adminRequired, st)
      else (json (JMessage ''Discussion deleted successfully''),
            st\<lparr>discussions := deleteOne (\<lambda>d. d_id d = discussionId) (discussions st)\<rparr>))"

section \<open>The server as a transition system\<close>

text \<open>
  One constructor for each route that writes to the store. The remaining routes
  (the GET routes, the two logins and the image upload) leave every collection as it is.
\<close>

datatype request =
    Register "string option" "string option" string date
  | Setup "objid option" "objid option" "objid option"
  | PostReview "objid option" objid "string option" date
  | PutReview "objid option" objid "string option" date
  | PostRating "objid option" objid "rat option" date
  | PostDiscussion "objid option" "string option" date
  | PutConfig bool "bool option" "bool option"
  | AdminPostSchool bool "string option" date
  | AdminDeleteSchool bool objid
  | AdminPostClass bool "string option" "objid option" date
  | AdminDeleteClass bool objid
  | AdminPostTeacher bool "string option" "string option" "string option" "objid option"
      "objid option" date
  | AdminPutTeacher bool objid "string option" "string option" "string option"
  | AdminDeleteTeacher bool objid
  | AdminDeleteReview bool objid
  | AdminDeleteUser bool objid
  | AdminResetPassword bool objid "string option" string
  | AdminPinDiscussion bool objid
  | AdminDeleteDiscussion bool objid

fun handle :: "store \<Rightarrow> request \<Rightarrow> response \<times> store" where
  "handle st (Register username password hashed now) = postRegister st username password hashed now"
| "handle st (Setup tok schoolId classId) = postSetup st tok schoolId classId"
| "handle st (PostReview tok teacherId text now) = postReview st tok teacherId text now"
| "handle st (PutReview tok reviewId text now) = putReview st tok reviewId text now"
| "handle st (PostRating tok teacherId rating now) = postRating st tok teacherId rating now"
| "handle st (PostDiscussion tok message now) = postDiscussion st tok message now"
| "handle st (PutConfig a anon hide) = putConfig st a anon hide"
| "handle st (AdminPostSchool a name now) = adminPostSchool st a name now"
| "handle st (AdminDeleteSchool a schoolId) = adminDeleteSchool st a schoolId"
| "handle st (AdminPostClass a name schoolId now) = adminPostClass st a name schoolId now"
| "handle st (AdminDeleteClass a classId) = adminDeleteClass st a classId"
| "handle st (AdminPostTeacher a name q img classId schoolId now) =
     adminPostTeacher st a name q img classId schoolId now"
| "handle st (AdminPutTeacher a teacherId name q img) = adminPutTeacher st a teacherId name q img"
| "handle st (AdminDeleteTeacher a teacherId) = adminDeleteTeacher st a teacherId"
| "handle st (AdminDeleteReview a reviewId) = adminDeleteReview st a reviewId"
| "handle st (AdminDeleteUser a userId) = adminDeleteUser st a userId"
| "handle st (AdminResetPassword a userId newPassword hashed) =
     adminResetPassword st a userId newPassword hashed"
| "handle st (AdminPinDiscussion a discussionId) = adminPinDiscussion st a discussionId"
| "handle st (AdminDeleteDiscussion a discussionId) = adminDeleteDiscussion st a discussionId"

fun run :: "store \<Rightarrow> request list \<Rightarrow> store" where
  "run st [] = st"
| "run st (r # rs) = run (snd (handle st r)) rs"

text \<open>
  MongoDB keeps \<open>_id\<close> unique in each collection. Here that is an invariant of the store:
  the identifiers of a collection are distinct and below the counter.
\<close>

definition idsOk :: "('a \<Rightarrow> objid) \<Rightarrow> 'a list \<Rightarrow> objid \<Rightarrow> bool" where
  "idsOk f xs n = (distinct (map f xs) \<and> (\<forall>x \<in> set xs. f x < n))"

definition wf_store :: "store \<Rightarrow> bool" where
  "wf_store st =
     (idsOk u_id (users st) (nextId st) \<and> idsOk s_id (schools st) (nextId st)
      \<and> idsOk c_id (classes st) (nextId st) \<and> idsOk t_id (teachers st) (nextId st)
      \<and> idsOk rv_id (reviews st) (nextId st) \<and> idsOk rt_id (ratings st) (nextId st)
      \<and> idsOk d_id (discussions st) (nextId st))"

definition emptyStore :: store where
  "emptyStore = \<lparr>users = [], schools = [], classes = [], teachers = [], reviews = [],
     ratings = [], discussions = [], adminConfigs = [], nextId = 0\<rparr>"

section \<open>Invariants\<close>

text \<open>At most one Review for each pair of teacher and user.\<close>

definition reviewPairsDistinct :: "store \<Rightarrow> bool" where
  "reviewPairsDistinct st = distinct (map (\<lambda>r. (rv_teacher r, rv_user r)) (reviews st))"

text \<open>
  The user with the given id is set up with the given school and class, and the id cannot
  be handed out again.
\<close>

definition setupFixed :: "objid \<Rightarrow> objid option \<Rightarrow> objid option \<Rightarrow> store \<Rightarrow> bool" where
  "setupFixed uid sch cls st =
     (uid < nextId st
      \<and> (\<forall>u \<in> set (users st). u_id u = uid \<longrightarrow> u_isSetup u \<and> u_school u = sch \<and> u_class u = cls))"

text \<open>The denormalised aggregate of every stored teacher.\<close>

definition aggregates :: "store \<Rightarrow> (objid \<times> rat \<times> nat) list" where
  "aggregates st = map (\<lambda>t. (t_id t, t_averageRating t, t_totalRatings t)) (teachers st)"

text \<open>At most one Rating for each pair of teacher and user.\<close>

definition ratingPairsDistinct :: "store \<Rightarrow> bool" where
  "ratingPairsDistinct st = distinct (map (\<lambda>r. (rt_teacher r, rt_user r)) (ratings st))"

section \<open>The rating upsert in the words of the specification\<close>

text \<open>
  Section 4.5 of the specification: if a Rating for (teacherId, userId) exists, overwrite
  its value in place; else insert a new Rating. \<open>newId\<close> and \<open>now\<close> are the identifier and
  the creation date a new Rating gets.
\<close>

definition recordRating ::
  "rating list \<Rightarrow> objid \<Rightarrow> objid \<Rightarrow> rat \<Rightarrow> objid \<Rightarrow> date \<Rightarrow> rating list" where
  "recordRating rs teacherId userId v newId now =
     (if \<exists>r \<in> set rs. rt_teacher r = teacherId \<and> rt_user r = userId
      then map (\<lambda>r. if rt_teacher r = teacherId \<and> rt_user r = userId
                     then r\<lparr>rt_rating := v\<rparr> else r) rs
      else rs @ [\<lparr>rt_id = newId, rt_teacher = teacherId, rt_user = userId, rt_rating = v,
                  rt_createdAt = now\<rparr>])"

section \<open>Example stores\<close>

text \<open>
  A small store: three registered users (ids 0, 1, 2), one school (3), one class (4) and
  one teacher (5), as the listed requests build it from the empty store.
\<close>

definition alice :: user where
  "alice = \<lparr>u_id = 0, u_username = ''alice'', u_password = ''h1'', u_school = None,
     u_class = None, u_isSetup = False, u_createdAt = 1\<rparr>"

definition bob :: user where
  "bob = \<lparr>u_id = 1, u_username = ''bob'', u_password = ''h2'', u_school = None,
     u_class = None, u_isSetup = False, u_createdAt = 2\<rparr>"

definition carol :: user where
  "carol = \<lparr>u_id = 2, u_username = ''carol'', u_password = ''h3'', u_school = None,
     u_class = None, u_isSetup = False, u_createdAt = 3\<rparr>"

definition msT :: teacher where
  "msT = \<lparr>t_id = 5, t_name = ''Ms T'', t_qualifications = ''MSc'', t_imageUrl = ''img'',
     t_class = 4, t_school = 3, t_averageRating = 0, t_totalRatings = 0, t_createdAt = 6\<rparr>"

definition demoStore :: store where
  "demoStore = \<lparr>users = [alice, bob, carol],
     schools = [\<lparr>s_id = 3, s_name = ''North'', s_createdAt = 4\<rparr>],
     classes = [\<lparr>c_id = 4, c_name = ''7b'', c_school = 3, c_createdAt = 5\<rparr>],
     teachers = [msT],
     reviews = [], ratings = [], discussions = [],
     adminConfigs = [\<lparr>ac_secret = ''h0'', ac_anonymousReviews = False,
        ac_hideTeacherImages = False\<rparr>],
     nextId = 6\<rparr>"

definition demoRequests :: "request list" where
  "demoRequests =
     [Register (Some ''alice'') (Some ''pw1'') ''h1'' 1,
      Register (Some ''bob'') (Some ''pw2'') ''h2'' 2,
      Register (Some ''carol'') (Some ''pw3'') ''h3'' 3,
      AdminPostSchool True (Some ''North'') 4,
      AdminPostClass True (Some ''7b'') (Some 3) 5,
      AdminPostTeacher True (Some ''Ms T'') (Some ''MSc'') (Some ''img'') (Some 4) (Some 3) 6]"

text \<open>The three users rate teacher 5 with 5, 3 and 4.\<close>

definition ratingRequests :: "request list" where
  "ratingRequests =
     [PostRating (Some 0) 5 (Some 5) 7, PostRating (Some 1) 5 (Some 3) 8,
      PostRating (Some 2) 5 (Some 4) 9]"


text \<open>Alice and Carol have rated teacher 5, Bob has not.\<close>

definition partlyRatedStore :: store where
  "partlyRatedStore = run demoStore
     [PostRating (Some 0) 5 (Some 5) 7, PostRating (Some 2) 5 (Some 4) 8]"

text \<open>Alice (review 6) and Bob (review 7) have each reviewed teacher 5.\<close>

definition reviewedStore :: store where
  "reviewedStore = run demoStore
     [PostReview (Some 0) 5 (Some ''clear'') 7, PostReview (Some 1) 5 (Some ''strict'') 8]"

text \<open>Anonymous reviews switched on, then Alice reviews teacher 5.\<close>

definition anonStore :: store where
  "anonStore = run demoStore
     [PutConfig True (Some True) None, PostReview (Some 0) 5 (Some ''clear'') 7]"

text \<open>Alice has completed setup for class 4, then teacher images are hidden.\<close>

definition hiddenStore :: store where
  "hiddenStore = run demoStore
     [Setup (Some 0) (Some 3) (Some 4), PutConfig True None (Some True)]"

text \<open>The three ratings of teacher 5, then Alice's account is deleted by the admin.\<close>

definition staleStore :: store where
  "staleStore = snd (adminDeleteUser (run demoStore ratingRequests) True 0)"

text \<open>The example store after the three ratings.\<close>

definition ratedStore :: store where
  "ratedStore = run demoStore ratingRequests"

section \<open>Facts about the collection operations\<close>

lemma findOne_SomeD: "findOne P xs = Some x \<Longrightarrow> P x \<and> x \<in> set xs"
  by (auto simp: findOne_def find_Some_iff)

lemma findOne_None_iff: "findOne P xs = None \<longleftrightarrow> (\<forall>x \<in> set xs. \<not> P x)"
  by (auto simp: findOne_def find_None_iff)

lemma map_updateOne: "(\<And>x. g (f x) = g x) \<Longrightarrow> map g (updateOne P f xs) = map g xs"
  by (induction xs) auto

lemma findOne_updateOne:
  "(\<And>x. P x \<Longrightarrow> P (f x)) \<Longrightarrow> findOne P (updateOne P f xs) = map_option f (findOne P xs)"
  by (induction xs) (auto simp: findOne_def)

lemma updateOne_as_map:
  "distinct (map g xs) \<Longrightarrow>
   updateOne (\<lambda>x. g x = k) f xs = map (\<lambda>x. if g x = k then f x else x) xs"
proof (induction xs)
  case Nil
  then show ?case by simp
next
  case (Cons x xs)
  show ?case
  proof (cases "g x = k")
    case True
    with Cons.prems have "k \<notin> g ` set xs" by simp
    then have "\<forall>y \<in> set xs. g y \<noteq> k" by blast
    then have "map (\<lambda>x. if g x = k then f x else x) xs = xs"
      by (intro map_idI) auto
    with True show ?thesis by simp
  next
    case False
    with Cons show ?thesis by simp
  qed
qed

lemma idsOk_alt: "idsOk g xs n = (distinct (map g xs) \<and> (\<forall>i \<in> set (map g xs). i < n))"
  by (auto simp: idsOk_def)

lemma idsOk_updateOne:
  "(\<And>x. g (f x) = g x) \<Longrightarrow> idsOk g xs n \<Longrightarrow> idsOk g (updateOne P f xs) n"
  by (simp add: idsOk_alt map_updateOne del: set_map)

lemma set_updateOne: "set (updateOne P f xs) \<subseteq> set xs \<union> f ` {x \<in> set xs. P x}"
  by (induction xs) auto

lemma set_deleteOne: "set (deleteOne P xs) \<subseteq> set xs"
  by (induction xs) auto

lemma set_deleteMany: "set (deleteMany P xs) = {x \<in> set xs. \<not> P x}"
  by (auto simp: deleteMany_def)

lemma filter_singleton:
  assumes "length (filter P xs) \<le> 1" and "x \<in> set xs" and "P x"
  shows "filter P xs = [x]"
proof -
  from assms(2,3) have m: "x \<in> set (filter P xs)" by simp
  then obtain y ys where e: "filter P xs = y # ys" by (cases "filter P xs") auto
  with assms(1) have "ys = []" by simp
  with e m show ?thesis by simp
qed

lemma auth_users: "users st' = users st \<Longrightarrow> auth st' tok = auth st tok"
  by (cases tok) (simp_all add: auth_def)

lemma auth_SomeD:
  "auth st tok = Some u \<Longrightarrow> tok = Some (u_id u) \<and> findOne (\<lambda>x. u_id x = u_id u) (users st) = Some u"
  by (cases tok) (auto simp: auth_def dest: findOne_SomeD)

lemma distinct_map_deleteOne: "distinct (map g xs) \<Longrightarrow> distinct (map g (deleteOne P xs))"
proof (induction xs)
  case Nil
  then show ?case by simp
next
  case (Cons x xs)
  from set_deleteOne[of P xs] have "g ` set (deleteOne P xs) \<subseteq> g ` set xs" by blast
  with Cons show ?case by auto
qed

lemma distinct_map_deleteMany: "distinct (map g xs) \<Longrightarrow> distinct (map g (deleteMany P xs))"
  by (simp add: deleteMany_def distinct_map_filter)

lemma deleteOne_as_filter:
  "distinct (map g xs) \<Longrightarrow> deleteOne (\<lambda>x. g x = k) xs = filter (\<lambda>x. g x \<noteq> k) xs"
proof (induction xs)
  case Nil
  then show ?case by simp
next
  case (Cons x xs)
  show ?case
  proof (cases "g x = k")
    case True
    with Cons.prems have "k \<notin> g ` set xs" by simp
    then have "\<forall>y \<in> set xs. g y \<noteq> k" by blast
    then have "filter (\<lambda>x. g x \<noteq> k) xs = xs" by (simp add: filter_id_conv)
    with True show ?thesis by simp
  next
    case False
    with Cons show ?thesis by simp
  qed
qed

lemma idsOk_append: "idsOk g xs n \<Longrightarrow> g x = n \<Longrightarrow> idsOk g (xs @ [x]) (Suc n)"
  by (auto simp: idsOk_def less_Suc_eq)

lemma idsOk_Suc: "idsOk g xs n \<Longrightarrow> idsOk g xs (Suc n)"
  by (auto simp: idsOk_def less_Suc_eq)

lemma idsOk_deleteOne: "idsOk g xs n \<Longrightarrow> idsOk g (deleteOne P xs) n"
  using set_deleteOne[of P xs] by (auto simp: idsOk_def distinct_map_deleteOne)

lemma idsOk_deleteMany: "idsOk g xs n \<Longrightarrow> idsOk g (deleteMany P xs) n"
  by (auto simp: idsOk_def distinct_map_deleteMany set_deleteMany)

lemmas idsOk_intros = idsOk_append idsOk_Suc idsOk_deleteOne idsOk_deleteMany idsOk_updateOne

lemma distinct_map_filter_le1:
  "distinct (map g xs) \<Longrightarrow> length (filter (\<lambda>x. g x = k) xs) \<le> 1"
proof (induction xs)
  case Nil
  then show ?case by simp
next
  case (Cons x xs)
  show ?case
  proof (cases "g x = k")
    case True
    with Cons.prems have "k \<notin> g ` set xs" by simp
    then have "\<forall>y \<in> set xs. g y \<noteq> k" by blast
    then have "filter (\<lambda>x. g x = k) xs = []" by (simp add: filter_empty_conv)
    with True show ?thesis by simp
  next
    case False
    with Cons show ?thesis by simp
  qed
qed

section \<open>Facts about double rounding\<close>


lemma pow2_pos: "0 < pow2 e"
  by (simp add: pow2_def)



lemma pow2_powi: "pow2 e = 2 powi e"
  by (simp add: pow2_def power_int_def inverse_eq_divide power_one_over)

lemma pow2_add: "pow2 (a + b) = pow2 a * pow2 b"
  by (simp add: pow2_powi power_int_add)

lemma pow2_diff: "pow2 (a - b) = pow2 a / pow2 b"
  by (simp add: pow2_powi power_int_diff)

lemma pow2_nat: "0 \<le> e \<Longrightarrow> pow2 e = 2 ^ nat e"
  by (simp add: pow2_def)

lemma bitlen_rat_bounds:
  assumes "0 < a"
  shows "pow2 (bitlen a - 1) \<le> of_int a" and "of_int a < pow2 (bitlen a)"
proof -
  from assms have b1: "1 \<le> bitlen a" by (auto simp: bitlen_alt_def)
  from bitlen_bounds[OF assms] have l: "2 ^ nat (bitlen a - 1) \<le> a" and u: "a < 2 ^ nat (bitlen a)"
    by simp_all
  from l have "rat_of_int (2 ^ nat (bitlen a - 1)) \<le> of_int a" by (simp only: of_int_le_iff)
  with b1 show "pow2 (bitlen a - 1) \<le> of_int a" by (simp add: pow2_nat)
  from u have "rat_of_int a < of_int (2 ^ nat (bitlen a))" by (simp only: of_int_less_iff)
  with b1 show "of_int a < pow2 (bitlen a)" by (simp add: pow2_nat)
qed

lemma ilog2_bounds:
  assumes "0 < q"
  shows "pow2 (ilog2 q) \<le> q" and "q < pow2 (ilog2 q + 1)"
proof -
  obtain a b where ab: "quotient_of q = (a, b)" by (cases "quotient_of q")
  then have b: "0 < b" by (rule quotient_of_denom_pos)
  from ab have q: "q = of_int a / of_int b" by (rule quotient_of_div)
  with assms b have a: "0 < a" by (simp add: zero_less_divide_iff)
  let ?k = "bitlen a - bitlen b"
  note A = bitlen_rat_bounds[OF a] and B = bitlen_rat_bounds[OF b]
  have lo: "pow2 (?k - 1) < q"
  proof -
    have "pow2 (?k - 1) = pow2 (bitlen a - 1) / pow2 (bitlen b)"
      by (simp add: pow2_diff[symmetric] algebra_simps)
    also have "\<dots> \<le> of_int a / pow2 (bitlen b)"
      using A(1) by (simp add: divide_right_mono pow2_pos less_imp_le)
    also have "\<dots> < of_int a / of_int b"
      using B(2) a b by (simp add: divide_strict_left_mono pow2_pos)
    finally show ?thesis by (simp add: q)
  qed
  have hi: "q < pow2 (?k + 1)"
  proof -
    have "q = of_int a / of_int b" by (rule q)
    also have "\<dots> < pow2 (bitlen a) / of_int b"
      using A(2) b by (simp add: divide_strict_right_mono)
    also have "\<dots> \<le> pow2 (bitlen a) / pow2 (bitlen b - 1)"
      using B(1) b by (simp add: divide_left_mono pow2_pos less_imp_le)
    also have "\<dots> = pow2 (?k + 1)"
      by (simp add: pow2_diff[symmetric] algebra_simps)
    finally show ?thesis .
  qed
  show "pow2 (ilog2 q) \<le> q"
    using lo by (auto simp: ilog2_def ab Let_def)
  show "q < pow2 (ilog2 q + 1)"
    using hi by (auto simp: ilog2_def ab Let_def not_le)
qed

lemma significand_range:
  assumes "0 < q"
  shows "2 ^ 52 \<le> q / pow2 (ilog2 q - 52)" and "q / pow2 (ilog2 q - 52) < 2 ^ 53"
proof -
  have e: "pow2 (ilog2 q - 52) = pow2 (ilog2 q) / 2 ^ 52"
    by (simp add: pow2_diff pow2_nat)
  have p: "0 < pow2 (ilog2 q)" by (rule pow2_pos)
  from ilog2_bounds(1)[OF assms] p show "2 ^ 52 \<le> q / pow2 (ilog2 q - 52)"
    by (simp add: e field_simps)
  have "pow2 (ilog2 q + 1) = 2 * pow2 (ilog2 q)" by (simp add: pow2_add pow2_nat)
  with ilog2_bounds(2)[OF assms] p show "q / pow2 (ilog2 q - 52) < 2 ^ 53"
    by (simp add: e field_simps)
qed



text \<open>Two familiar doubles: 0.1 and 1.3333333333333333.\<close>

lemma toDouble_examples:
  "toDouble (1 / 10) = 3602879701896397 / 2 ^ 55"
  "toDouble (4 / 3) = 6004799503160661 / 2 ^ 52"
  "toDouble (7 / 2) = 7 / 2"
  by code_simp+





lemmas response_defs = json_def status_json_def caught_def unauthenticated_def adminRequired_def

section \<open>The rating aggregate\<close>

text \<open>The example store is what the startup code and the listed requests produce.\<close>

lemma demoStore_reachable:
  "run (initializeAdminConfig emptyStore ''h0'') demoRequests = demoStore"
  by code_simp

lemma upsertRating_nonempty:
  assumes "upsertRating st teacherId userId rating now = Inr (r, st1)"
  shows "\<exists>x \<in> set (ratings st1). rt_teacher x = teacherId"
proof (cases "findOne (\<lambda>r. rt_teacher r = teacherId \<and> rt_user r = userId) (ratings st)")
  case None
  with assms show ?thesis
    by (auto simp: upsertRating_def Let_def split: if_splits)
next
  case (Some ex)
  then have "ex \<in> set (ratings st)" "rt_teacher ex = teacherId"
    by (auto dest: findOne_SomeD)
  then have "teacherId \<in> set (map rt_teacher (ratings st))" by force
  moreover from assms Some have "map rt_teacher (ratings st1) = map rt_teacher (ratings st)"
    by (auto simp: upsertRating_def map_updateOne split: if_splits)
  ultimately have "teacherId \<in> set (map rt_teacher (ratings st1))" by simp
  then show ?thesis by auto
qed

lemma upsertRating_found_length:
  assumes "upsertRating st teacherId userId rating now = Inr (r, st1)"
  shows "1 \<le> length (filter (\<lambda>r. rt_teacher r = teacherId) (ratings st1))"
proof -
  from upsertRating_nonempty[OF assms]
  have "filter (\<lambda>r. rt_teacher r = teacherId) (ratings st1) \<noteq> []"
    by (auto simp: filter_empty_conv)
  then show ?thesis
    by (cases "filter (\<lambda>r. rt_teacher r = teacherId) (ratings st1)") auto
qed





text \<open>
  Claim C10. The average divides by the number of ratings found for the teacher after the
  upsert. Whenever the upsert succeeds that list holds at least the caller's rating, so
  the divisor is at least 1, and the handler never answers with the cast error of a
  \<open>NaN\<close> average.
\<close>

theorem C10_divisor_at_least_one:
  "(upsertRating st teacherId userId rating now = Inr (r, st1) \<longrightarrow>
      1 \<le> length (filter (\<lambda>r. rt_teacher r = teacherId) (ratings st1))
      \<and> avgRating (filter (\<lambda>r. rt_teacher r = teacherId) (ratings st1)) \<noteq> None)
   \<and> body (fst (postRating st tok teacherId rating now)) \<noteq> JThrown CastError"
proof -
  have a: "avgRating (filter (\<lambda>r. rt_teacher r = teacherId) (ratings s)) \<noteq> None"
    if "upsertRating st teacherId u rating now = Inr (r, s)" for u r s
    using upsertRating_found_length[OF that] by (auto simp: avgRating_def)
  have b: "body (fst (postRating st tok teacherId rating now)) \<noteq> JThrown CastError"
  proof (cases "auth st tok")
    case None
    then show ?thesis by (simp add: postRating_def unauthenticated_def status_json_def)
  next
    case (Some au)
    show ?thesis
    proof (cases "upsertRating st teacherId (u_id au) rating now")
      case (Inl e)
      then have "e = ValidationError"
        by (auto simp: upsertRating_def Let_def split: option.splits if_splits)
      with Some Inl show ?thesis by (simp add: postRating_def caught_def status_json_def)
    next
      case (Inr p)
      obtain r s where p: "p = (r, s)" by (cases p)
      from a[of "u_id au" r s] Inr p Some show ?thesis
        by (auto simp: postRating_def Let_def json_def)
    qed
  qed
  from a[of userId r st1] upsertRating_found_length[of st teacherId userId rating now r st1] b
  show ?thesis by blast
qed

theorem C10_divisor_at_least_one_witness:
  "upsertRating demoStore 5 0 (Some 4) 7 =
     Inr (\<lparr>rt_id = 6, rt_teacher = 5, rt_user = 0, rt_rating = 4, rt_createdAt = 7\<rparr>,
          demoStore\<lparr>ratings := [\<lparr>rt_id = 6, rt_teacher = 5, rt_user = 0, rt_rating = 4,
             rt_createdAt = 7\<rparr>], nextId := 7\<rparr>)
   \<and> 1 \<le> length (filter (\<lambda>r. rt_teacher r = 5) (ratings (demoStore\<lparr>ratings :=
        [\<lparr>rt_id = 6, rt_teacher = 5, rt_user = 0, rt_rating = 4, rt_createdAt = 7\<rparr>],
        nextId := 7\<rparr>)))"
proof -
  have e: "upsertRating demoStore 5 0 (Some 4) 7 =
     Inr (\<lparr>rt_id = 6, rt_teacher = 5, rt_user = 0, rt_rating = 4, rt_createdAt = 7\<rparr>,
          demoStore\<lparr>ratings := [\<lparr>rt_id = 6, rt_teacher = 5, rt_user = 0, rt_rating = 4,
             rt_createdAt = 7\<rparr>], nextId := 7\<rparr>)"
    by (simp add: upsertRating_def demoStore_def findOne_def validRating_def Let_def)
  from C10_divisor_at_least_one[of demoStore 5 0 "Some 4" 7 _ _ None] e
  show ?thesis by blast
qed

section \<open>Unique identifiers in every reachable store\<close>

lemma upsertRating_wf:
  assumes "upsertRating st teacherId userId rating now = Inr (r, st1)" and "wf_store st"
  shows "wf_store st1"
proof (cases "findOne (\<lambda>r. rt_teacher r = teacherId \<and> rt_user r = userId) (ratings st)")
  case None
  with assms show ?thesis
    by (auto simp: upsertRating_def Let_def wf_store_def idsOk_append idsOk_Suc split: if_splits)
next
  case (Some ex)
  with assms show ?thesis
    by (auto simp: upsertRating_def wf_store_def idsOk_updateOne split: if_splits)
qed

lemma postRating_wf:
  assumes "wf_store st"
  shows "wf_store (snd (postRating st tok teacherId rating now))"
proof (cases "auth st tok")
  case None
  with assms show ?thesis by (simp add: postRating_def)
next
  case (Some au)
  show ?thesis
  proof (cases "upsertRating st teacherId (u_id au) rating now")
    case (Inl e)
    with Some assms show ?thesis by (simp add: postRating_def)
  next
    case (Inr p)
    obtain r s where p: "p = (r, s)" by (cases p)
    from upsertRating_wf[OF Inr[unfolded p] assms] have w: "wf_store s" .
    then have "wf_store (s\<lparr>teachers := updateOne P f (teachers s)\<rparr>)"
      if "\<And>x. t_id (f x) = t_id x" for P f
      using that by (simp add: wf_store_def idsOk_updateOne)
    with w Some Inr p show ?thesis
      by (simp add: postRating_def Let_def split: option.splits)
  qed
qed

lemma handle_wf:
  assumes "wf_store st"
  shows "wf_store (snd (handle st req))"
proof (cases req)
  case (Register x1 x2 x3 x4)
  with assms show ?thesis
    by (auto simp: postRegister_def Let_def wf_store_def idsOk_intros split: option.splits)
next
  case (Setup x1 x2 x3)
  with assms show ?thesis
    by (auto simp: postSetup_def Let_def wf_store_def idsOk_intros split: option.splits)
next
  case (PostReview x1 x2 x3 x4)
  with assms show ?thesis
    by (auto simp: postReview_def Let_def wf_store_def idsOk_intros split: option.splits)
next
  case (PutReview x1 x2 x3 x4)
  with assms show ?thesis
    by (auto simp: putReview_def Let_def wf_store_def idsOk_intros split: option.splits)
next
  case (PostRating x1 x2 x3 x4)
  with postRating_wf[OF assms] show ?thesis by simp
next
  case (PostDiscussion x1 x2 x3)
  with assms show ?thesis
    by (auto simp: postDiscussion_def Let_def wf_store_def idsOk_intros split: option.splits)
next
  case (PutConfig x1 x2 x3)
  with assms show ?thesis
    by (auto simp: putConfig_def Let_def wf_store_def idsOk_intros split: option.splits)
next
  case (AdminPostSchool x1 x2 x3)
  with assms show ?thesis
    by (auto simp: adminPostSchool_def Let_def wf_store_def idsOk_intros)
next
  case (AdminDeleteSchool x1 x2)
  with assms show ?thesis
    by (auto simp: adminDeleteSchool_def wf_store_def idsOk_intros)
next
  case (AdminPostClass x1 x2 x3 x4)
  with assms show ?thesis
    by (auto simp: adminPostClass_def Let_def wf_store_def idsOk_intros)
next
  case (AdminDeleteClass x1 x2)
  with assms show ?thesis
    by (auto simp: adminDeleteClass_def wf_store_def idsOk_intros)
next
  case (AdminPostTeacher x1 x2 x3 x4 x5 x6 x7)
  with assms show ?thesis
    by (auto simp: adminPostTeacher_def Let_def wf_store_def idsOk_intros)
next
  case (AdminPutTeacher x1 x2 x3 x4 x5)
  with assms show ?thesis
    by (auto simp: adminPutTeacher_def wf_store_def idsOk_intros putTeacherFields_def
        split: option.splits)
next
  case (AdminDeleteTeacher x1 x2)
  with assms show ?thesis
    by (auto simp: adminDeleteTeacher_def wf_store_def idsOk_intros)
next
  case (AdminDeleteReview x1 x2)
  with assms show ?thesis
    by (auto simp: adminDeleteReview_def wf_store_def idsOk_intros)
next
  case (AdminDeleteUser x1 x2)
  with assms show ?thesis
    by (auto simp: adminDeleteUser_def wf_store_def idsOk_intros)
next
  case (AdminResetPassword x1 x2 x3 x4)
  with assms show ?thesis
    by (auto simp: adminResetPassword_def wf_store_def idsOk_intros)
next
  case (AdminPinDiscussion x1 x2)
  with assms show ?thesis
    by (auto simp: adminPinDiscussion_def wf_store_def idsOk_intros split: option.splits)
next
  case (AdminDeleteDiscussion x1 x2)
  with assms show ?thesis
    by (auto simp: adminDeleteDiscussion_def wf_store_def idsOk_intros)
qed

lemma run_wf: "wf_store st \<Longrightarrow> wf_store (run st reqs)"
  by (induction reqs arbitrary: st) (simp_all add: handle_wf)

lemma initial_wf: "wf_store (initializeAdminConfig emptyStore secret)"
  by (simp add: initializeAdminConfig_def emptyStore_def wf_store_def idsOk_def findOne_def)

text \<open>
  Every store the server reaches from the empty one, by the startup code and any sequence
  of requests, has unique identifiers.
\<close>

lemma reachable_wf_store: "wf_store (run (initializeAdminConfig emptyStore secret) reqs)"
  by (rule run_wf[OF initial_wf])

lemma upsertRating_pairs:
  assumes "upsertRating st teacherId userId rating now = Inr (r, st1)" and "ratingPairsDistinct st"
  shows "ratingPairsDistinct st1"
proof (cases "findOne (\<lambda>r. rt_teacher r = teacherId \<and> rt_user r = userId) (ratings st)")
  case None
  then have "(teacherId, userId) \<notin> (\<lambda>r. (rt_teacher r, rt_user r)) ` set (ratings st)"
    by (auto simp: findOne_None_iff)
  with None assms show ?thesis
    by (auto simp: upsertRating_def Let_def ratingPairsDistinct_def split: if_splits)
next
  case (Some ex)
  with assms show ?thesis
    by (auto simp: upsertRating_def ratingPairsDistinct_def map_updateOne split: if_splits)
qed

lemma postRating_pairs:
  assumes "ratingPairsDistinct st"
  shows "ratingPairsDistinct (snd (postRating st tok teacherId rating now))"
proof (cases "auth st tok")
  case None
  with assms show ?thesis by (simp add: postRating_def)
next
  case (Some au)
  show ?thesis
  proof (cases "upsertRating st teacherId (u_id au) rating now")
    case (Inl e)
    with Some assms show ?thesis by (simp add: postRating_def)
  next
    case (Inr p)
    obtain r s where p: "p = (r, s)" by (cases p)
    from upsertRating_pairs[OF Inr[unfolded p] assms] Some Inr p show ?thesis
      by (simp add: postRating_def Let_def ratingPairsDistinct_def split: option.splits)
  qed
qed

lemma handle_rating_pairs:
  assumes "ratingPairsDistinct st"
  shows "ratingPairsDistinct (snd (handle st req))"
proof (cases req)
  case (Register x1 x2 x3 x4)
  with assms show ?thesis
    by (simp add: postRegister_def Let_def ratingPairsDistinct_def split: option.splits)
next
  case (Setup x1 x2 x3)
  with assms show ?thesis
    by (simp add: postSetup_def Let_def ratingPairsDistinct_def split: option.splits)
next
  case (PostReview x1 x2 x3 x4)
  with assms show ?thesis
    by (simp add: postReview_def Let_def ratingPairsDistinct_def split: option.splits)
next
  case (PutReview x1 x2 x3 x4)
  with assms show ?thesis
    by (simp add: putReview_def Let_def ratingPairsDistinct_def split: option.splits)
next
  case (PostRating x1 x2 x3 x4)
  with postRating_pairs[OF assms] show ?thesis by simp
next
  case (PostDiscussion x1 x2 x3)
  with assms show ?thesis
    by (simp add: postDiscussion_def Let_def ratingPairsDistinct_def split: option.splits)
next
  case (PutConfig x1 x2 x3)
  with assms show ?thesis
    by (simp add: putConfig_def Let_def ratingPairsDistinct_def split: option.splits)
next
  case (AdminPostSchool x1 x2 x3)
  with assms show ?thesis by (simp add: adminPostSchool_def Let_def ratingPairsDistinct_def)
next
  case (AdminDeleteSchool x1 x2)
  with assms show ?thesis by (simp add: adminDeleteSchool_def ratingPairsDistinct_def)
next
  case (AdminPostClass x1 x2 x3 x4)
  with assms show ?thesis by (simp add: adminPostClass_def Let_def ratingPairsDistinct_def)
next
  case (AdminDeleteClass x1 x2)
  with assms show ?thesis by (simp add: adminDeleteClass_def ratingPairsDistinct_def)
next
  case (AdminPostTeacher x1 x2 x3 x4 x5 x6 x7)
  with assms show ?thesis by (simp add: adminPostTeacher_def Let_def ratingPairsDistinct_def)
next
  case (AdminPutTeacher x1 x2 x3 x4 x5)
  with assms show ?thesis
    by (simp add: adminPutTeacher_def ratingPairsDistinct_def split: option.splits)
next
  case (AdminDeleteTeacher x1 x2)
  with assms show ?thesis
    by (simp add: adminDeleteTeacher_def ratingPairsDistinct_def distinct_map_deleteMany)
next
  case (AdminDeleteReview x1 x2)
  with assms show ?thesis by (simp add: adminDeleteReview_def ratingPairsDistinct_def)
next
  case (AdminDeleteUser x1 x2)
  with assms show ?thesis
    by (simp add: adminDeleteUser_def ratingPairsDistinct_def distinct_map_deleteMany)
next
  case (AdminResetPassword x1 x2 x3 x4)
  with assms show ?thesis by (simp add: adminResetPassword_def ratingPairsDistinct_def)
next
  case (AdminPinDiscussion x1 x2)
  with assms show ?thesis
    by (simp add: adminPinDiscussion_def ratingPairsDistinct_def split: option.splits)
next
  case (AdminDeleteDiscussion x1 x2)
  with assms show ?thesis by (simp add: adminDeleteDiscussion_def ratingPairsDistinct_def)
qed

lemma run_rating_pairs: "ratingPairsDistinct st \<Longrightarrow> ratingPairsDistinct (run st reqs)"
  by (induction reqs arbitrary: st) (simp_all add: handle_rating_pairs)

lemma ratingPairsDistinct_le1:
  assumes "ratingPairsDistinct st"
  shows "length (filter (\<lambda>r. rt_teacher r = teacherId \<and> rt_user r = userId) (ratings st)) \<le> 1"
  using distinct_map_filter_le1[of "\<lambda>r. (rt_teacher r, rt_user r)" "ratings st" "(teacherId, userId)"]
    assms by (simp add: ratingPairsDistinct_def)

lemma reachable_ratings:
  "wf_store (run (initializeAdminConfig emptyStore secret) reqs)
   \<and> length (filter (\<lambda>r. rt_teacher r = teacherId \<and> rt_user r = userId)
        (ratings (run (initializeAdminConfig emptyStore secret) reqs))) \<le> 1"
proof -
  have "ratingPairsDistinct (initializeAdminConfig emptyStore secret)"
    by (simp add: initializeAdminConfig_def emptyStore_def ratingPairsDistinct_def findOne_def)
  from run_rating_pairs[OF this] ratingPairsDistinct_le1 run_wf[OF initial_wf]
  show ?thesis by blast
qed

section \<open>Rating upsert and validation\<close>

lemma upsertRating_pair:
  assumes ok: "idsOk rt_id (ratings st) (nextId st)"
    and v: "validRating (Some v)"
    and one: "length (filter (\<lambda>r. rt_teacher r = teacherId \<and> rt_user r = userId) (ratings st)) \<le> 1"
  shows "\<exists>r st1. upsertRating st teacherId userId (Some v) now = Inr (r, st1)
       \<and> map rt_rating (filter (\<lambda>r. rt_teacher r = teacherId \<and> rt_user r = userId) (ratings st1)) = [v]
       \<and> idsOk rt_id (ratings st1) (nextId st1) \<and> users st1 = users st"
proof (cases "findOne (\<lambda>r. rt_teacher r = teacherId \<and> rt_user r = userId) (ratings st)")
  case None
  then have "filter (\<lambda>r. rt_teacher r = teacherId \<and> rt_user r = userId) (ratings st) = []"
    by (auto simp: findOne_None_iff filter_empty_conv)
  with None v ok show ?thesis
    by (auto simp: upsertRating_def Let_def idsOk_def less_Suc_eq)
next
  case (Some ex)
  let ?P = "\<lambda>r. rt_teacher r = teacherId \<and> rt_user r = userId"
  let ?h = "\<lambda>x. if rt_id x = rt_id ex then x\<lparr>rt_rating := v\<rparr> else x"
  from Some have ex: "ex \<in> set (ratings st)" "?P ex" by (auto dest: findOne_SomeD)
  from ok have d: "distinct (map rt_id (ratings st))" by (simp add: idsOk_def)
  have u: "updateOne (\<lambda>r. rt_id r = rt_id ex) (\<lambda>r. r\<lparr>rt_rating := v\<rparr>) (ratings st)
      = map ?h (ratings st)"
    using d by (rule updateOne_as_map)
  have "filter ?P (map ?h (ratings st)) = map ?h (filter (?P \<circ> ?h) (ratings st))"
    by (simp add: filter_map)
  also have "?P \<circ> ?h = ?P" by (auto simp: fun_eq_iff)
  also have "filter ?P (ratings st) = [ex]" using one ex by (rule filter_singleton)
  finally have f: "filter ?P (map ?h (ratings st)) = [ex\<lparr>rt_rating := v\<rparr>]" by simp
  from ok have "idsOk rt_id (updateOne (\<lambda>r. rt_id r = rt_id ex) (\<lambda>r. r\<lparr>rt_rating := v\<rparr>)
      (ratings st)) (nextId st)"
    by (rule idsOk_updateOne[rotated]) simp
  with Some v u f show ?thesis
    by (simp add: upsertRating_def)
qed


lemma postRating_pair:
  assumes ok: "idsOk rt_id (ratings st) (nextId st)"
    and au: "auth st tok = Some u"
    and v: "validRating (Some v)"
    and one: "length (filter (\<lambda>r. rt_teacher r = teacherId \<and> rt_user r = u_id u) (ratings st)) \<le> 1"
  shows "status (fst (postRating st tok teacherId (Some v) now)) = 200"
    and "map rt_rating (filter (\<lambda>r. rt_teacher r = teacherId \<and> rt_user r = u_id u)
          (ratings (snd (postRating st tok teacherId (Some v) now)))) = [v]"
    and "idsOk rt_id (ratings (snd (postRating st tok teacherId (Some v) now)))
          (nextId (snd (postRating st tok teacherId (Some v) now)))"
    and "users (snd (postRating st tok teacherId (Some v) now)) = users st"
proof -
  from upsertRating_pair[OF ok v one, where now = now] obtain r st1
    where up: "upsertRating st teacherId (u_id u) (Some v) now = Inr (r, st1)"
      and f: "map rt_rating (filter (\<lambda>r. rt_teacher r = teacherId \<and> rt_user r = u_id u) (ratings st1)) = [v]"
      and i: "idsOk rt_id (ratings st1) (nextId st1)" and us: "users st1 = users st"
    by (elim exE conjE)
  from upsertRating_found_length[OF up] obtain avg
    where avg: "avgRating (filter (\<lambda>r. rt_teacher r = teacherId) (ratings st1)) = Some avg"
    by (cases "filter (\<lambda>r. rt_teacher r = teacherId) (ratings st1)")
       (simp_all add: avgRating_def)
  from au up avg have p: "postRating st tok teacherId (Some v) now =
     (json (JRating r), st1\<lparr>teachers := updateOne (\<lambda>t. t_id t = teacherId)
        (\<lambda>t. t\<lparr>t_averageRating := avg, t_totalRatings :=
            length (filter (\<lambda>r. rt_teacher r = teacherId) (ratings st1))\<rparr>) (teachers st1)\<rparr>)"
    by (simp add: postRating_def Let_def)
  show "status (fst (postRating st tok teacherId (Some v) now)) = 200"
    by (simp add: p json_def)
  show "map rt_rating (filter (\<lambda>r. rt_teacher r = teacherId \<and> rt_user r = u_id u)
          (ratings (snd (postRating st tok teacherId (Some v) now)))) = [v]"
    using f by (simp add: p)
  show "idsOk rt_id (ratings (snd (postRating st tok teacherId (Some v) now)))
          (nextId (snd (postRating st tok teacherId (Some v) now)))"
    using i by (simp add: p)
  show "users (snd (postRating st tok teacherId (Some v) now)) = users st"
    using us by (simp add: p)
qed

lemma upsertRating_refines:
  assumes ok: "idsOk rt_id (ratings st) (nextId st)"
    and v: "validRating (Some v)"
    and one: "length (filter (\<lambda>r. rt_teacher r = teacherId \<and> rt_user r = userId) (ratings st)) \<le> 1"
  shows "\<exists>r st1. upsertRating st teacherId userId (Some v) now = Inr (r, st1)
       \<and> ratings st1 = recordRating (ratings st) teacherId userId v (nextId st) now"
proof (cases "findOne (\<lambda>r. rt_teacher r = teacherId \<and> rt_user r = userId) (ratings st)")
  case None
  then have "\<not> (\<exists>r \<in> set (ratings st). rt_teacher r = teacherId \<and> rt_user r = userId)"
    by (simp add: findOne_None_iff)
  with None v show ?thesis
    by (simp add: upsertRating_def Let_def recordRating_def)
next
  case (Some ex)
  let ?P = "\<lambda>r. rt_teacher r = teacherId \<and> rt_user r = userId"
  let ?h = "\<lambda>x. if rt_id x = rt_id ex then x\<lparr>rt_rating := v\<rparr> else x"
  let ?g = "\<lambda>x. if ?P x then x\<lparr>rt_rating := v\<rparr> else x"
  from Some have ex: "ex \<in> set (ratings st)" "?P ex" by (auto dest: findOne_SomeD)
  from ok have d: "distinct (map rt_id (ratings st))" by (simp add: idsOk_def)
  then have inj: "inj_on rt_id (set (ratings st))" by (simp add: distinct_map)
  have only: "filter ?P (ratings st) = [ex]" using one ex by (rule filter_singleton)
  have same: "(rt_id x = rt_id ex) = ?P x" if x: "x \<in> set (ratings st)" for x
  proof
    assume "rt_id x = rt_id ex"
    with inj x ex(1) have "x = ex" by (auto dest: inj_onD)
    with ex(2) show "?P x" by simp
  next
    assume "?P x"
    with x have "x \<in> set (filter ?P (ratings st))" by simp
    then show "rt_id x = rt_id ex" by (simp add: only)
  qed
  have "updateOne (\<lambda>r. rt_id r = rt_id ex) (\<lambda>r. r\<lparr>rt_rating := v\<rparr>) (ratings st)
      = map ?h (ratings st)"
    using d by (rule updateOne_as_map)
  also have "\<dots> = map ?g (ratings st)"
    by (rule map_cong) (simp_all add: same)
  also have "\<dots> = recordRating (ratings st) teacherId userId v (nextId st) now"
    using ex by (auto simp: recordRating_def)
  finally have "updateOne (\<lambda>r. rt_id r = rt_id ex) (\<lambda>r. r\<lparr>rt_rating := v\<rparr>) (ratings st)
      = recordRating (ratings st) teacherId userId v (nextId st) now" .
  with Some v show ?thesis by (simp add: upsertRating_def)
qed

lemma postRating_refines:
  assumes ok: "idsOk rt_id (ratings st) (nextId st)"
    and au: "auth st tok = Some u"
    and v: "validRating (Some v)"
    and one: "length (filter (\<lambda>r. rt_teacher r = teacherId \<and> rt_user r = u_id u) (ratings st)) \<le> 1"
  shows "ratings (snd (postRating st tok teacherId (Some v) now))
      = recordRating (ratings st) teacherId (u_id u) v (nextId st) now"
proof -
  from upsertRating_refines[OF ok v one, where now = now] obtain r st1
    where up: "upsertRating st teacherId (u_id u) (Some v) now = Inr (r, st1)"
      and f: "ratings st1 = recordRating (ratings st) teacherId (u_id u) v (nextId st) now"
    by (elim exE conjE)
  from upsertRating_found_length[OF up] obtain avg
    where avg: "avgRating (filter (\<lambda>r. rt_teacher r = teacherId) (ratings st1)) = Some avg"
    by (cases "filter (\<lambda>r. rt_teacher r = teacherId) (ratings st1)")
       (simp_all add: avgRating_def)
  from au up avg f show ?thesis by (simp add: postRating_def Let_def)
qed

lemma postRating_twice:
  assumes wf: "wf_store st" and au: "auth st tok = Some u"
    and v1: "validRating (Some r1)" and v2: "validRating (Some r2)"
    and one: "length (filter (\<lambda>r. rt_teacher r = teacherId \<and> rt_user r = u_id u) (ratings st)) \<le> 1"
  shows "status (fst (postRating st tok teacherId (Some r1) n1)) = 200
     \<and> status (fst (postRating (snd (postRating st tok teacherId (Some r1) n1)) tok teacherId
          (Some r2) n2)) = 200
     \<and> ratings (snd (postRating st tok teacherId (Some r1) n1))
         = recordRating (ratings st) teacherId (u_id u) r1 (nextId st) n1
     \<and> ratings (snd (postRating (snd (postRating st tok teacherId (Some r1) n1)) tok teacherId
          (Some r2) n2))
         = map (\<lambda>r. if rt_teacher r = teacherId \<and> rt_user r = u_id u
                     then r\<lparr>rt_rating := r2\<rparr> else r)
             (ratings (snd (postRating st tok teacherId (Some r1) n1)))
     \<and> map rt_rating (filter (\<lambda>r. rt_teacher r = teacherId \<and> rt_user r = u_id u)
          (ratings (snd (postRating (snd (postRating st tok teacherId (Some r1) n1)) tok teacherId
             (Some r2) n2)))) = [r2]"
proof -
  let ?st1 = "snd (postRating st tok teacherId (Some r1) n1)"
  let ?P = "\<lambda>r. rt_teacher r = teacherId \<and> rt_user r = u_id u"
  from wf have ok: "idsOk rt_id (ratings st) (nextId st)" by (simp add: wf_store_def)
  note a = postRating_pair[OF ok au v1 one, where now = n1]
  note a' = postRating_refines[OF ok au v1 one, where now = n1]
  from auth_users[OF a(4)] au have au1: "auth ?st1 tok = Some u" by simp
  have len: "length (map rt_rating (filter ?P (ratings ?st1))) = 1"
    by (simp only: a(2)) simp
  then have one1: "length (filter ?P (ratings ?st1)) \<le> 1"
    by simp
  from len have "filter ?P (ratings ?st1) \<noteq> []" by auto
  then have ex: "\<exists>r \<in> set (ratings ?st1). ?P r" by (simp add: filter_empty_conv)
  note b = postRating_pair[OF a(3) au1 v2 one1, where now = n2]
  note b' = postRating_refines[OF a(3) au1 v2 one1, where now = n2]
  from b' ex have c: "ratings (snd (postRating ?st1 tok teacherId (Some r2) n2))
      = map (\<lambda>r. if ?P r then r\<lparr>rt_rating := r2\<rparr> else r) (ratings ?st1)"
    by (simp add: recordRating_def)
  from a(1) b(1) a' c b(2) show ?thesis by (intro conjI)
qed

text \<open>
  Claim C3. When an authenticated user submits the valid value r1 and then the valid value
  r2 for a teacher, in a store with unique identifiers that holds at most one Rating for
  the pair, both requests succeed. The first one changes the ratings exactly as the
  specification's upsert does: it overwrites the value of the pair's Rating in place when
  there is one, and appends a new Rating otherwise, leaving every other Rating as it is.
  The second one overwrites that value in place, and the store then holds exactly one
  Rating for the pair, with value r2. Every store reached from the empty one has unique
  identifiers and at most one Rating for every pair.
\<close>

theorem C3_rating_upsert:
  "(wf_store st \<and> auth st tok = Some u \<and> validRating (Some r1) \<and> validRating (Some r2)
      \<and> length (filter (\<lambda>r. rt_teacher r = teacherId \<and> rt_user r = u_id u) (ratings st)) \<le> 1
      \<longrightarrow>
      status (fst (postRating st tok teacherId (Some r1) n1)) = 200
      \<and> status (fst (postRating (snd (postRating st tok teacherId (Some r1) n1)) tok teacherId
           (Some r2) n2)) = 200
      \<and> ratings (snd (postRating st tok teacherId (Some r1) n1))
          = recordRating (ratings st) teacherId (u_id u) r1 (nextId st) n1
      \<and> ratings (snd (postRating (snd (postRating st tok teacherId (Some r1) n1)) tok teacherId
           (Some r2) n2))
          = map (\<lambda>r. if rt_teacher r = teacherId \<and> rt_user r = u_id u
                      then r\<lparr>rt_rating := r2\<rparr> else r)
              (ratings (snd (postRating st tok teacherId (Some r1) n1)))
      \<and> map rt_rating (filter (\<lambda>r. rt_teacher r = teacherId \<and> rt_user r = u_id u)
           (ratings (snd (postRating (snd (postRating st tok teacherId (Some r1) n1)) tok
              teacherId (Some r2) n2)))) = [r2])
   \<and> wf_store (run (initializeAdminConfig emptyStore secret) reqs)
   \<and> length (filter (\<lambda>r. rt_teacher r = teacherId \<and> rt_user r = userId)
        (ratings (run (initializeAdminConfig emptyStore secret) reqs))) \<le> 1"
  using postRating_twice[of st tok u r1 r2 teacherId n1 n2]
    reachable_ratings[of secret reqs teacherId userId]
  by blast

theorem C3_rating_upsert_witness:
  "wf_store partlyRatedStore \<and> auth partlyRatedStore (Some 1) = Some bob
   \<and> validRating (Some 1) \<and> validRating (Some 2)
   \<and> length (filter (\<lambda>r. rt_teacher r = 5 \<and> rt_user r = u_id bob) (ratings partlyRatedStore)) \<le> 1
   \<and> map (\<lambda>r. (rt_id r, rt_user r, rt_rating r, rt_createdAt r)) (ratings partlyRatedStore)
       = [(6, 0, 5, 7), (7, 2, 4, 8)]
   \<and> map (\<lambda>r. (rt_id r, rt_user r, rt_rating r, rt_createdAt r))
        (ratings (snd (postRating partlyRatedStore (Some 1) 5 (Some 1) 9)))
       = [(6, 0, 5, 7), (7, 2, 4, 8), (8, 1, 1, 9)]
   \<and> map (\<lambda>r. (rt_id r, rt_user r, rt_rating r, rt_createdAt r))
        (ratings (snd (postRating (snd (postRating partlyRatedStore (Some 1) 5 (Some 1) 9))
           (Some 1) 5 (Some 2) 10)))
       = [(6, 0, 5, 7), (7, 2, 4, 8), (8, 1, 2, 9)]
   \<and> map rt_rating (filter (\<lambda>r. rt_teacher r = 5 \<and> rt_user r = u_id bob)
        (ratings (snd (postRating (snd (postRating partlyRatedStore (Some 1) 5 (Some 1) 9))
           (Some 1) 5 (Some 2) 10)))) = [2]"
proof -
  let ?st1 = "snd (postRating partlyRatedStore (Some 1) 5 (Some 1) 9)"
  let ?st2 = "snd (postRating ?st1 (Some 1) 5 (Some 2) 10)"
  let ?k = "\<lambda>r. (rt_id r, rt_user r, rt_rating r, rt_createdAt r)"
  have a: "wf_store partlyRatedStore" by code_simp
  have b: "auth partlyRatedStore (Some 1) = Some bob" by code_simp
  have c: "validRating (Some 1)" "validRating (Some 2)" by (simp_all add: validRating_def)
  have d: "length (filter (\<lambda>r. rt_teacher r = 5 \<and> rt_user r = u_id bob)
      (ratings partlyRatedStore)) \<le> 1"
    by code_simp
  have e: "map ?k (ratings partlyRatedStore) = [(6, 0, 5, 7), (7, 2, 4, 8)]" by code_simp
  have f: "map ?k (recordRating (ratings partlyRatedStore) 5 (u_id bob) 1
      (nextId partlyRatedStore) 9) = [(6, 0, 5, 7), (7, 2, 4, 8), (8, 1, 1, 9)]"
    by code_simp
  note t = C3_rating_upsert[of partlyRatedStore "Some 1" bob 1 2 5 9 10]
  from t a b c d have 1: "ratings ?st1
      = recordRating (ratings partlyRatedStore) 5 (u_id bob) 1 (nextId partlyRatedStore) 9"
    by blast
  from t a b c d have 2: "ratings ?st2
      = map (\<lambda>r. if rt_teacher r = 5 \<and> rt_user r = u_id bob then r\<lparr>rt_rating := 2\<rparr> else r)
          (ratings ?st1)"
    by blast
  from t a b c d have 3: "map rt_rating (filter (\<lambda>r. rt_teacher r = 5 \<and> rt_user r = u_id bob)
      (ratings ?st2)) = [2]"
    by blast
  from f have 4: "map ?k (ratings ?st1) = [(6, 0, 5, 7), (7, 2, 4, 8), (8, 1, 1, 9)]"
    by (simp only: 1)
  have 5: "map ?k (ratings ?st2) = [(6, 0, 5, 7), (7, 2, 4, 8), (8, 1, 2, 9)]"
    by code_simp
  from a b c d e 3 4 5 show ?thesis by blast
qed

lemma postRating_invalid:
  "\<not> validRating rating \<Longrightarrow>
   postRating st tok teacherId rating now =
     (if auth st tok = None then unauthenticated else caught ValidationError, st)"
proof (cases "auth st tok")
  case None
  then show ?thesis by (simp add: postRating_def)
next
  case (Some au)
  assume "\<not> validRating rating"
  then have "upsertRating st teacherId (u_id au) rating now = Inl ValidationError"
    by (simp add: upsertRating_def split: option.splits)
  with Some show ?thesis by (simp add: postRating_def)
qed

lemma upsertRating_range:
  assumes "upsertRating st teacherId userId rating now = Inr (r, st1)"
    and "\<forall>x \<in> set (ratings st). 1 \<le> rt_rating x \<and> rt_rating x \<le> 5"
  shows "\<forall>x \<in> set (ratings st1). 1 \<le> rt_rating x \<and> rt_rating x \<le> 5"
proof -
  from assms(1) obtain v where v: "rating = Some v" "1 \<le> v" "v \<le> 5"
    by (cases rating) (auto simp: upsertRating_def validRating_def split: option.splits if_splits)
  show ?thesis
  proof (cases "findOne (\<lambda>r. rt_teacher r = teacherId \<and> rt_user r = userId) (ratings st)")
    case None
    with assms v show ?thesis
      by (auto simp: upsertRating_def Let_def split: if_splits)
  next
    case (Some ex)
    with assms(1) v have "ratings st1 = updateOne (\<lambda>r. rt_id r = rt_id ex)
        (\<lambda>r. r\<lparr>rt_rating := v\<rparr>) (ratings st)"
      by (auto simp: upsertRating_def split: if_splits)
    with set_updateOne[of "\<lambda>r. rt_id r = rt_id ex" "\<lambda>r. r\<lparr>rt_rating := v\<rparr>" "ratings st"]
      assms(2) v show ?thesis by auto
  qed
qed

lemma postRating_range:
  assumes "\<forall>x \<in> set (ratings st). 1 \<le> rt_rating x \<and> rt_rating x \<le> 5"
  shows "\<forall>x \<in> set (ratings (snd (postRating st tok teacherId rating now))).
           1 \<le> rt_rating x \<and> rt_rating x \<le> 5"
proof (cases "auth st tok")
  case None
  with assms show ?thesis by (simp add: postRating_def)
next
  case (Some au)
  show ?thesis
  proof (cases "upsertRating st teacherId (u_id au) rating now")
    case (Inl e)
    with Some assms show ?thesis by (simp add: postRating_def)
  next
    case (Inr p)
    obtain r s where p: "p = (r, s)" by (cases p)
    from upsertRating_range[OF Inr[unfolded p] assms] Some Inr p show ?thesis
      by (simp add: postRating_def Let_def split: option.splits)
  qed
qed

lemma handle_ratings_subset:
  assumes "\<forall>tok teacherId rating now. req \<noteq> PostRating tok teacherId rating now"
  shows "set (ratings (snd (handle st req))) \<subseteq> set (ratings st)"
proof (cases req)
  case (Register x1 x2 x3 x4)
  then show ?thesis by (simp add: postRegister_def Let_def split: option.splits)
next
  case (Setup x1 x2 x3)
  then show ?thesis by (simp add: postSetup_def Let_def split: option.splits)
next
  case (PostReview x1 x2 x3 x4)
  then show ?thesis by (simp add: postReview_def Let_def split: option.splits)
next
  case (PutReview x1 x2 x3 x4)
  then show ?thesis by (simp add: putReview_def Let_def split: option.splits)
next
  case (PostRating x1 x2 x3 x4)
  with assms show ?thesis by simp
next
  case (PostDiscussion x1 x2 x3)
  then show ?thesis by (simp add: postDiscussion_def Let_def split: option.splits)
next
  case (PutConfig x1 x2 x3)
  then show ?thesis by (simp add: putConfig_def Let_def split: option.splits)
next
  case (AdminPostSchool x1 x2 x3)
  then show ?thesis by (simp add: adminPostSchool_def Let_def)
next
  case (AdminDeleteSchool x1 x2)
  then show ?thesis by (simp add: adminDeleteSchool_def)
next
  case (AdminPostClass x1 x2 x3 x4)
  then show ?thesis by (simp add: adminPostClass_def Let_def)
next
  case (AdminDeleteClass x1 x2)
  then show ?thesis by (simp add: adminDeleteClass_def)
next
  case (AdminPostTeacher x1 x2 x3 x4 x5 x6 x7)
  then show ?thesis by (simp add: adminPostTeacher_def Let_def)
next
  case (AdminPutTeacher x1 x2 x3 x4 x5)
  then show ?thesis by (simp add: adminPutTeacher_def split: option.splits)
next
  case (AdminDeleteTeacher x1 x2)
  then show ?thesis by (auto simp: adminDeleteTeacher_def set_deleteMany)
next
  case (AdminDeleteReview x1 x2)
  then show ?thesis by (simp add: adminDeleteReview_def)
next
  case (AdminDeleteUser x1 x2)
  then show ?thesis by (auto simp: adminDeleteUser_def set_deleteMany)
next
  case (AdminResetPassword x1 x2 x3 x4)
  then show ?thesis by (simp add: adminResetPassword_def)
next
  case (AdminPinDiscussion x1 x2)
  then show ?thesis by (simp add: adminPinDiscussion_def split: option.splits)
next
  case (AdminDeleteDiscussion x1 x2)
  then show ?thesis by (simp add: adminDeleteDiscussion_def)
qed

lemma handle_ratings_range:
  assumes "\<forall>x \<in> set (ratings st). 1 \<le> rt_rating x \<and> rt_rating x \<le> 5"
  shows "\<forall>x \<in> set (ratings (snd (handle st req))). 1 \<le> rt_rating x \<and> rt_rating x \<le> 5"
proof (cases "\<exists>tok teacherId rating now. req = PostRating tok teacherId rating now")
  case True
  with postRating_range[OF assms] show ?thesis by auto
next
  case False
  then have "set (ratings (snd (handle st req))) \<subseteq> set (ratings st)"
    by (intro handle_ratings_subset) simp
  with assms show ?thesis by blast
qed

lemma postRating_valid:
  assumes "auth st tok = Some u" and "validRating (Some v)"
  shows "status (fst (postRating st tok teacherId (Some v) now)) = 200"
proof -
  from assms(2) obtain r st1
    where up: "upsertRating st teacherId (u_id u) (Some v) now = Inr (r, st1)"
    by (cases "findOne (\<lambda>r. rt_teacher r = teacherId \<and> rt_user r = u_id u) (ratings st)")
       (simp_all add: upsertRating_def Let_def)
  from upsertRating_found_length[OF up] obtain avg
    where "avgRating (filter (\<lambda>r. rt_teacher r = teacherId) (ratings st1)) = Some avg"
    by (cases "filter (\<lambda>r. rt_teacher r = teacherId) (ratings st1)")
       (simp_all add: avgRating_def)
  with assms(1) up show ?thesis by (simp add: postRating_def Let_def json_def)
qed

text \<open>
  Claim C7, as the code has it. The schema checks a Number between 1 and 5 and nothing
  else. A request whose rating is missing, below 1 or above 5 is refused (401 for an
  unauthenticated caller, otherwise 400 with the validation error) and leaves the whole
  store, and so every Rating and every teacher aggregate, as it was. No route ever stores
  a rating value outside [1, 5]. Every value within [1, 5], integer or not, is accepted
  from an authenticated caller.
\<close>

theorem C7_rating_range:
  "((rating = None \<or> (\<exists>x. rating = Some x \<and> (x < 1 \<or> 5 < x))) \<longrightarrow>
      postRating st tok teacherId rating now =
        (if auth st tok = None then unauthenticated else caught ValidationError, st))
   \<and> ((\<forall>x \<in> set (ratings st). 1 \<le> rt_rating x \<and> rt_rating x \<le> 5) \<longrightarrow>
        (\<forall>x \<in> set (ratings (snd (handle st req))). 1 \<le> rt_rating x \<and> rt_rating x \<le> 5))
   \<and> (auth st tok \<noteq> None \<and> 1 \<le> v \<and> v \<le> 5 \<longrightarrow>
        status (fst (postRating st tok teacherId (Some v) now)) = 200)"
proof (intro conjI impI)
  assume "rating = None \<or> (\<exists>x. rating = Some x \<and> (x < 1 \<or> 5 < x))"
  then have "\<not> validRating rating" by (auto simp: validRating_def)
  then show "postRating st tok teacherId rating now =
        (if auth st tok = None then unauthenticated else caught ValidationError, st)"
    by (rule postRating_invalid)
next
  assume "\<forall>x \<in> set (ratings st). 1 \<le> rt_rating x \<and> rt_rating x \<le> 5"
  then show "\<forall>x \<in> set (ratings (snd (handle st req))). 1 \<le> rt_rating x \<and> rt_rating x \<le> 5"
    by (rule handle_ratings_range)
next
  assume a: "auth st tok \<noteq> None \<and> 1 \<le> v \<and> v \<le> 5"
  then obtain u where "auth st tok = Some u" by auto
  moreover from a have "validRating (Some v)" by (simp add: validRating_def)
  ultimately show "status (fst (postRating st tok teacherId (Some v) now)) = 200"
    by (rule postRating_valid)
qed

theorem C7_rating_range_witness:
  "(\<exists>x. Some (6::rat) = Some x \<and> (x < 1 \<or> 5 < x))
   \<and> postRating ratedStore (Some 0) 5 (Some 6) 10 = (caught ValidationError, ratedStore)
   \<and> map rt_rating (ratings ratedStore) = [5, 3, 4]
   \<and> list_all (\<lambda>x. 1 \<le> rt_rating x \<and> rt_rating x \<le> 5) (ratings ratedStore)
   \<and> map rt_rating (ratings (snd (handle ratedStore (PostRating (Some 1) 5 (Some 2) 10))))
       = [5, 2, 4]
   \<and> list_all (\<lambda>x. 1 \<le> rt_rating x \<and> rt_rating x \<le> 5)
        (ratings (snd (handle ratedStore (PostRating (Some 1) 5 (Some 2) 10))))
   \<and> auth ratedStore (Some 0) \<noteq> None \<and> (1::rat) \<le> 7 / 2 \<and> (7::rat) / 2 \<le> 5
   \<and> status (fst (postRating ratedStore (Some 0) 5 (Some (7 / 2)) 10)) = 200"
proof -
  have a: "\<exists>x. Some (6::rat) = Some x \<and> (x < 1 \<or> 5 < x)" by simp
  have b: "list_all (\<lambda>x. 1 \<le> rt_rating x \<and> rt_rating x \<le> 5) (ratings ratedStore)"
    by code_simp
  have c: "auth ratedStore (Some 0) \<noteq> None" by code_simp
  have c': "(1::rat) \<le> 7 / 2 \<and> (7::rat) / 2 \<le> 5" by simp
  have d: "map rt_rating (ratings ratedStore) = [5, 3, 4]" by code_simp
  have e: "map rt_rating (ratings (snd (handle ratedStore (PostRating (Some 1) 5 (Some 2) 10))))
       = [5, 2, 4]"
    by code_simp
  note t = C7_rating_range[of "Some 6" ratedStore "Some 0" 5 10
      "PostRating (Some 1) 5 (Some 2) 10" "7 / 2"]
  from t a c have 1: "postRating ratedStore (Some 0) 5 (Some 6) 10
      = (caught ValidationError, ratedStore)"
    by simp
  from b have "\<forall>x \<in> set (ratings ratedStore). 1 \<le> rt_rating x \<and> rt_rating x \<le> 5"
    by (simp only: list_all_iff)
  with t have "\<forall>x \<in> set (ratings (snd (handle ratedStore (PostRating (Some 1) 5 (Some 2) 10)))).
      1 \<le> rt_rating x \<and> rt_rating x \<le> 5"
    by blast
  then have 2: "list_all (\<lambda>x. 1 \<le> rt_rating x \<and> rt_rating x \<le> 5)
      (ratings (snd (handle ratedStore (PostRating (Some 1) 5 (Some 2) 10))))"
    by (simp only: list_all_iff)
  from t c c' have 3: "status (fst (postRating ratedStore (Some 0) 5 (Some (7 / 2)) 10)) = 200"
    by blast
  from a b c c' d e 1 2 3 show ?thesis by blast
qed

text \<open>
  The claim in its original wording fails: the non-integer value 7/2 is accepted and
  stored.
\<close>

theorem C7_counterexample:
  "status (fst (postRating demoStore (Some 0) 5 (Some (7 / 2)) 7)) = 200
   \<and> map rt_rating (ratings (snd (postRating demoStore (Some 0) 5 (Some (7 / 2)) 7))) = [7 / 2]
   \<and> (7 / 2 :: rat) \<notin> \<int>"
proof -
  have "(7 / 2 :: rat) \<notin> \<int>"
  proof
    assume "(7 / 2 :: rat) \<in> \<int>"
    then obtain i :: int where "(7 / 2 :: rat) = of_int i" by (auto elim: Ints_cases)
    then have "of_int (2 * i) = (of_int 7 :: rat)" by simp
    then have "2 * i = 7" by (simp only: of_int_eq_iff)
    then show False by presburger
  qed
  moreover have "status (fst (postRating demoStore (Some 0) 5 (Some (7 / 2)) 7)) = 200
   \<and> map rt_rating (ratings (snd (postRating demoStore (Some 0) 5 (Some (7 / 2)) 7))) = [7 / 2]"
    by code_simp
  ultimately show ?thesis by simp
qed

section \<open>Reviews\<close>

lemma postReview_existing:
  assumes "auth st tok = Some u"
    and "\<exists>r \<in> set (reviews st). rv_teacher r = teacherId \<and> rv_user r = u_id u"
  shows "postReview st tok teacherId text now =
           (status_json 400 (JError ''You have already reviewed this teacher''), st)"
proof -
  from assms(2) have "findOne (\<lambda>r. rv_teacher r = teacherId \<and> rv_user r = u_id u) (reviews st) \<noteq> None"
    by (simp add: findOne_None_iff)
  with assms(1) show ?thesis by (auto simp: postReview_def)
qed

lemma putReview_nonowner:
  assumes "auth st tok = Some u"
    and "\<forall>r \<in> set (reviews st). rv_id r = reviewId \<longrightarrow> rv_user r \<noteq> u_id u"
  shows "putReview st tok reviewId text now = (status_json 404 (JError ''Review not found''), st)"
proof -
  from assms(2) have "findOne (\<lambda>r. rv_id r = reviewId \<and> rv_user r = u_id u) (reviews st) = None"
    by (auto simp: findOne_None_iff)
  with assms(1) show ?thesis by (simp add: putReview_def)
qed

lemma postReview_pairs:
  assumes "reviewPairsDistinct st"
  shows "reviewPairsDistinct (snd (postReview st tok teacherId text now))"
proof (cases "auth st tok")
  case None
  with assms show ?thesis by (simp add: postReview_def)
next
  case (Some au)
  show ?thesis
  proof (cases "findOne (\<lambda>r. rv_teacher r = teacherId \<and> rv_user r = u_id au) (reviews st)")
    case (Some ex)
    with \<open>auth st tok = Some au\<close> assms show ?thesis by (simp add: postReview_def)
  next
    case None
    then have "(teacherId, u_id au) \<notin> (\<lambda>r. (rv_teacher r, rv_user r)) ` set (reviews st)"
      by (auto simp: findOne_None_iff)
    with None \<open>auth st tok = Some au\<close> assms show ?thesis
      by (simp add: postReview_def Let_def reviewPairsDistinct_def split: option.splits)
  qed
qed

lemma putReview_pairs:
  assumes "reviewPairsDistinct st"
  shows "reviewPairsDistinct (snd (putReview st tok reviewId text now))"
  using assms
  by (simp add: putReview_def Let_def reviewPairsDistinct_def map_updateOne split: option.splits)

lemma postRating_reviews: "reviews (snd (postRating st tok teacherId rating now)) = reviews st"
proof (cases "auth st tok")
  case None
  then show ?thesis by (simp add: postRating_def)
next
  case (Some au)
  show ?thesis
  proof (cases "upsertRating st teacherId (u_id au) rating now")
    case (Inl e)
    with Some show ?thesis by (simp add: postRating_def)
  next
    case (Inr p)
    obtain r s where p: "p = (r, s)" by (cases p)
    from Inr p have "reviews s = reviews st"
      by (auto simp: upsertRating_def Let_def split: option.splits if_splits)
    with Some Inr p show ?thesis
      by (simp add: postRating_def Let_def split: option.splits)
  qed
qed

lemma handle_review_pairs:
  assumes "reviewPairsDistinct st"
  shows "reviewPairsDistinct (snd (handle st req))"
proof (cases req)
  case (Register x1 x2 x3 x4)
  with assms show ?thesis
    by (simp add: postRegister_def Let_def reviewPairsDistinct_def split: option.splits)
next
  case (Setup x1 x2 x3)
  with assms show ?thesis
    by (simp add: postSetup_def Let_def reviewPairsDistinct_def split: option.splits)
next
  case (PostReview x1 x2 x3 x4)
  with postReview_pairs[OF assms] show ?thesis by simp
next
  case (PutReview x1 x2 x3 x4)
  with putReview_pairs[OF assms] show ?thesis by simp
next
  case (PostRating x1 x2 x3 x4)
  with assms show ?thesis by (simp add: reviewPairsDistinct_def postRating_reviews)
next
  case (PostDiscussion x1 x2 x3)
  with assms show ?thesis
    by (simp add: postDiscussion_def Let_def reviewPairsDistinct_def split: option.splits)
next
  case (PutConfig x1 x2 x3)
  with assms show ?thesis
    by (simp add: putConfig_def Let_def reviewPairsDistinct_def split: option.splits)
next
  case (AdminPostSchool x1 x2 x3)
  with assms show ?thesis by (simp add: adminPostSchool_def Let_def reviewPairsDistinct_def)
next
  case (AdminDeleteSchool x1 x2)
  with assms show ?thesis by (simp add: adminDeleteSchool_def reviewPairsDistinct_def)
next
  case (AdminPostClass x1 x2 x3 x4)
  with assms show ?thesis by (simp add: adminPostClass_def Let_def reviewPairsDistinct_def)
next
  case (AdminDeleteClass x1 x2)
  with assms show ?thesis by (simp add: adminDeleteClass_def reviewPairsDistinct_def)
next
  case (AdminPostTeacher x1 x2 x3 x4 x5 x6 x7)
  with assms show ?thesis by (simp add: adminPostTeacher_def Let_def reviewPairsDistinct_def)
next
  case (AdminPutTeacher x1 x2 x3 x4 x5)
  with assms show ?thesis
    by (simp add: adminPutTeacher_def reviewPairsDistinct_def split: option.splits)
next
  case (AdminDeleteTeacher x1 x2)
  with assms show ?thesis
    by (simp add: adminDeleteTeacher_def reviewPairsDistinct_def distinct_map_deleteMany)
next
  case (AdminDeleteReview x1 x2)
  with assms show ?thesis
    by (simp add: adminDeleteReview_def reviewPairsDistinct_def distinct_map_deleteOne)
next
  case (AdminDeleteUser x1 x2)
  with assms show ?thesis
    by (simp add: adminDeleteUser_def reviewPairsDistinct_def distinct_map_deleteMany)
next
  case (AdminResetPassword x1 x2 x3 x4)
  with assms show ?thesis by (simp add: adminResetPassword_def reviewPairsDistinct_def)
next
  case (AdminPinDiscussion x1 x2)
  with assms show ?thesis
    by (simp add: adminPinDiscussion_def reviewPairsDistinct_def split: option.splits)
next
  case (AdminDeleteDiscussion x1 x2)
  with assms show ?thesis by (simp add: adminDeleteDiscussion_def reviewPairsDistinct_def)
qed

lemma run_review_pairs: "reviewPairsDistinct st \<Longrightarrow> reviewPairsDistinct (run st reqs)"
  by (induction reqs arbitrary: st) (simp_all add: handle_review_pairs)

text \<open>
  Claim C2. POST /api/teachers/:teacherId/reviews by a user who already has a review of
  that teacher answers 400 and leaves the store as it was; PUT /api/reviews/:reviewId by
  a caller who owns no review with that id answers 404 and leaves the store as it was.
  Every route keeps the pairs (teacher, user) of the stored reviews distinct, so every
  store reached from the empty one holds at most one Review for each pair.
\<close>

theorem C2_one_review_per_pair:
  "(auth st tok = Some u
      \<and> (\<exists>r \<in> set (reviews st). rv_teacher r = teacherId \<and> rv_user r = u_id u) \<longrightarrow>
      postReview st tok teacherId text now =
        (status_json 400 (JError ''You have already reviewed this teacher''), st))
   \<and> (auth st tok = Some u
      \<and> (\<forall>r \<in> set (reviews st). rv_id r = reviewId \<longrightarrow> rv_user r \<noteq> u_id u) \<longrightarrow>
      putReview st tok reviewId text now = (status_json 404 (JError ''Review not found''), st))
   \<and> (reviewPairsDistinct st \<longrightarrow> reviewPairsDistinct (snd (handle st req)))
   \<and> reviewPairsDistinct (run (initializeAdminConfig emptyStore secret) reqs)"
proof -
  have "reviewPairsDistinct (initializeAdminConfig emptyStore secret)"
    by (simp add: reviewPairsDistinct_def initializeAdminConfig_def emptyStore_def split: option.splits)
  then have "reviewPairsDistinct (run (initializeAdminConfig emptyStore secret) reqs)"
    by (rule run_review_pairs)
  with postReview_existing[of st tok u teacherId "text" now]
    putReview_nonowner[of st tok u reviewId "text" now] handle_review_pairs[of st req]
  show ?thesis by blast
qed

theorem C2_one_review_per_pair_witness:
  "auth reviewedStore (Some 0) = Some alice
   \<and> (\<exists>r \<in> set (reviews reviewedStore). rv_teacher r = 5 \<and> rv_user r = u_id alice)
   \<and> postReview reviewedStore (Some 0) 5 (Some ''again'') 9 =
        (status_json 400 (JError ''You have already reviewed this teacher''), reviewedStore)
   \<and> map (\<lambda>r. (rv_id r, rv_user r)) (reviews reviewedStore) = [(6, 0), (7, 1)]
   \<and> putReview reviewedStore (Some 0) 7 (Some ''again'') 9 =
        (status_json 404 (JError ''Review not found''), reviewedStore)
   \<and> reviewPairsDistinct reviewedStore
   \<and> reviewPairsDistinct (snd (handle reviewedStore (PostReview (Some 2) 5 (Some ''fair'') 9)))
   \<and> length (reviews (snd (handle reviewedStore (PostReview (Some 2) 5 (Some ''fair'') 9)))) = 3"
proof -
  have a: "auth reviewedStore (Some 0) = Some alice" by code_simp
  have b: "\<exists>r \<in> set (reviews reviewedStore). rv_teacher r = 5 \<and> rv_user r = u_id alice"
    by code_simp
  have c: "map (\<lambda>r. (rv_id r, rv_user r)) (reviews reviewedStore) = [(6, 0), (7, 1)]"
    by code_simp
  have d: "\<forall>r \<in> set (reviews reviewedStore). rv_id r = 7 \<longrightarrow> rv_user r \<noteq> u_id alice"
    by code_simp
  have e: "reviewPairsDistinct reviewedStore" by code_simp
  have f: "length (reviews (snd (handle reviewedStore (PostReview (Some 2) 5 (Some ''fair'') 9)))) = 3"
    by code_simp
  from C2_one_review_per_pair[of reviewedStore "Some 0" alice 5 "Some ''again''" 9 7
      "PostReview (Some 2) 5 (Some ''fair'') 9" "[]" "[]"] a b d e
  have "postReview reviewedStore (Some 0) 5 (Some ''again'') 9 =
        (status_json 400 (JError ''You have already reviewed this teacher''), reviewedStore)
   \<and> putReview reviewedStore (Some 0) 7 (Some ''again'') 9 =
        (status_json 404 (JError ''Review not found''), reviewedStore)
   \<and> reviewPairsDistinct (snd (handle reviewedStore (PostReview (Some 2) 5 (Some ''fair'') 9)))"
    by blast
  with a b c e f show ?thesis by blast
qed

lemma getReviews_anonymous:
  assumes "auth st tok \<noteq> None" and "anonymousReviews (findOne (\<lambda>_. True) (adminConfigs st))"
  shows "getReviews st tok teacherId =
     (json (JReviews (map (\<lambda>r. r\<lparr>rv_username := ''Anonymous''\<rparr>)
        (take 50 (sort_key (\<lambda>r. - int (rv_createdAt r))
           (filter (\<lambda>r. rv_teacher r = teacherId) (reviews st)))))), st)"
  using assms by (auto simp: getReviews_def Let_def)

lemma getReviews_store: "snd (getReviews st tok teacherId) = st"
  by (simp add: getReviews_def Let_def split: option.splits)

lemma getMyReview_store: "snd (getMyReview st tok teacherId) = st"
  by (simp add: getMyReview_def split: option.splits)

lemma getMyReview_stored:
  assumes "auth st tok = Some u"
    and "findOne (\<lambda>r. rv_teacher r = teacherId \<and> rv_user r = u_id u) (reviews st) = Some r"
  shows "getMyReview st tok teacherId = (json (JReview r), st)"
  using assms by (simp add: getMyReview_def)

lemma postReview_username:
  assumes "auth st tok = Some u" and "body (fst (postReview st tok teacherId t now)) = JReview r"
  shows "rv_username r = u_username u \<and> reviews (snd (postReview st tok teacherId t now)) = reviews st @ [r]"
proof -
  from auth_SomeD[OF assms(1)] have f: "findOne (\<lambda>x. u_id x = u_id u) (users st) = Some u" by simp
  show ?thesis
  proof (cases "findOne (\<lambda>r. rv_teacher r = teacherId \<and> rv_user r = u_id u) (reviews st)")
    case (Some ex)
    with assms show ?thesis by (simp add: postReview_def response_defs)
  next
    case None
    with assms f show ?thesis
      by (cases "requiredString t") (auto simp: postReview_def response_defs Let_def)
  qed
qed

text \<open>
  Claim C5, as the code has it. With \<open>anonymousReviews\<close> on, the response of
  GET /api/teachers/:teacherId/reviews is the newest 50 reviews of the teacher with every
  username replaced by the literal Anonymous, and the store is left as it was. GET
  /api/teachers/:teacherId/my-review returns the caller's stored review as it is, and
  POST /api/teachers/:teacherId/reviews returns (and stores) the review with the caller's
  own username, whatever the flag says.
\<close>

theorem C5_anonymous_reviews:
  "(auth st tok \<noteq> None \<and> anonymousReviews (findOne (\<lambda>_. True) (adminConfigs st)) \<longrightarrow>
      getReviews st tok teacherId =
        (json (JReviews (map (\<lambda>r. r\<lparr>rv_username := ''Anonymous''\<rparr>)
           (take 50 (sort_key (\<lambda>r. - int (rv_createdAt r))
              (filter (\<lambda>r. rv_teacher r = teacherId) (reviews st)))))), st)
      \<and> (\<forall>rs. body (fst (getReviews st tok teacherId)) = JReviews rs \<longrightarrow>
            (\<forall>r \<in> set rs. rv_username r = ''Anonymous'')))
   \<and> snd (getReviews st tok teacherId) = st
   \<and> snd (getMyReview st tok teacherId) = st
   \<and> (auth st tok = Some u
        \<and> findOne (\<lambda>r. rv_teacher r = teacherId \<and> rv_user r = u_id u) (reviews st) = Some r \<longrightarrow>
        getMyReview st tok teacherId = (json (JReview r), st))
   \<and> (auth st tok2 = Some u2 \<and> body (fst (postReview st tok2 teacherId t now)) = JReview r' \<longrightarrow>
        rv_username r' = u_username u2
        \<and> reviews (snd (postReview st tok2 teacherId t now)) = reviews st @ [r'])"
proof -
  have "\<forall>rs. body (fst (getReviews st tok teacherId)) = JReviews rs \<longrightarrow>
            (\<forall>r \<in> set rs. rv_username r = ''Anonymous'')"
    if "auth st tok \<noteq> None" "anonymousReviews (findOne (\<lambda>_. True) (adminConfigs st))"
    using getReviews_anonymous[OF that, of teacherId] by (auto simp: json_def)
  with getReviews_anonymous[of st tok teacherId] getReviews_store[of st tok teacherId]
    getMyReview_store[of st tok teacherId] getMyReview_stored[of st tok u teacherId r]
    postReview_username[of st tok2 u2 teacherId t now r']
  show ?thesis by blast
qed

theorem C5_anonymous_reviews_witness:
  "auth anonStore (Some 0) \<noteq> None
   \<and> anonymousReviews (findOne (\<lambda>_. True) (adminConfigs anonStore))
   \<and> body (fst (getReviews anonStore (Some 0) 5)) =
       JReviews [\<lparr>rv_id = 6, rv_teacher = 5, rv_user = 0, rv_username = ''Anonymous'',
         rv_text = ''clear'', rv_createdAt = 7, rv_updatedAt = 7\<rparr>]
   \<and> list_all (\<lambda>r. rv_username r = ''Anonymous'')
        [\<lparr>rv_id = 6, rv_teacher = 5, rv_user = 0, rv_username = ''Anonymous'',
          rv_text = ''clear'', rv_createdAt = 7, rv_updatedAt = 7\<rparr>]
   \<and> map rv_username (reviews (snd (getReviews anonStore (Some 0) 5))) = [''alice'']
   \<and> auth anonStore (Some 0) = Some alice
   \<and> findOne (\<lambda>r. rv_teacher r = 5 \<and> rv_user r = u_id alice) (reviews anonStore) =
       Some \<lparr>rv_id = 6, rv_teacher = 5, rv_user = 0, rv_username = ''alice'',
         rv_text = ''clear'', rv_createdAt = 7, rv_updatedAt = 7\<rparr>
   \<and> getMyReview anonStore (Some 0) 5 =
       (json (JReview \<lparr>rv_id = 6, rv_teacher = 5, rv_user = 0, rv_username = ''alice'',
         rv_text = ''clear'', rv_createdAt = 7, rv_updatedAt = 7\<rparr>), anonStore)
   \<and> auth anonStore (Some 1) = Some bob
   \<and> body (fst (postReview anonStore (Some 1) 5 (Some ''strict'') 8)) =
       JReview \<lparr>rv_id = 7, rv_teacher = 5, rv_user = 1, rv_username = ''bob'',
         rv_text = ''strict'', rv_createdAt = 8, rv_updatedAt = 8\<rparr>
   \<and> rv_username \<lparr>rv_id = 7, rv_teacher = 5, rv_user = 1, rv_username = ''bob'',
         rv_text = ''strict'', rv_createdAt = 8, rv_updatedAt = 8\<rparr> = u_username bob"
proof -
  let ?a = "\<lparr>rv_id = 6, rv_teacher = 5, rv_user = 0, rv_username = ''alice'',
         rv_text = ''clear'', rv_createdAt = 7, rv_updatedAt = 7\<rparr>"
  let ?b = "\<lparr>rv_id = 7, rv_teacher = 5, rv_user = 1, rv_username = ''bob'',
         rv_text = ''strict'', rv_createdAt = 8, rv_updatedAt = 8\<rparr>"
  have a: "auth anonStore (Some 0) \<noteq> None" by code_simp
  have b: "anonymousReviews (findOne (\<lambda>_. True) (adminConfigs anonStore))" by code_simp
  have c: "body (fst (getReviews anonStore (Some 0) 5)) = JReviews [?a\<lparr>rv_username := ''Anonymous''\<rparr>]"
    by code_simp
  have d: "auth anonStore (Some 0) = Some alice" by code_simp
  have e: "findOne (\<lambda>r. rv_teacher r = 5 \<and> rv_user r = u_id alice) (reviews anonStore) = Some ?a"
    by code_simp
  have f: "auth anonStore (Some 1) = Some bob" by code_simp
  have g: "body (fst (postReview anonStore (Some 1) 5 (Some ''strict'') 8)) = JReview ?b"
    by code_simp
  have h: "map rv_username (reviews anonStore) = [''alice'']" by code_simp
  note t = C5_anonymous_reviews[of anonStore "Some 0" 5 alice ?a "Some 1" bob "Some ''strict''" 8 ?b]
  from t a b c have "\<forall>r \<in> set [?a\<lparr>rv_username := ''Anonymous''\<rparr>]. rv_username r = ''Anonymous''"
    by blast
  then have 1: "list_all (\<lambda>r. rv_username r = ''Anonymous'') [?a\<lparr>rv_username := ''Anonymous''\<rparr>]"
    by (simp only: list_all_iff)
  from t have 2: "snd (getReviews anonStore (Some 0) 5) = anonStore" by blast
  from t d e have 3: "getMyReview anonStore (Some 0) 5 = (json (JReview ?a), anonStore)" by blast
  from t f g have 4: "rv_username ?b = u_username bob" by blast
  from a b c d e f g h 1 2 3 4 show ?thesis by simp
qed

text \<open>
  The claim in its original wording fails: with the flag on, my-review and the response
  of a review creation carry the stored username.
\<close>

theorem C5_counterexample:
  "anonymousReviews (findOne (\<lambda>_. True) (adminConfigs anonStore))
   \<and> body (fst (getMyReview anonStore (Some 0) 5)) =
       JReview \<lparr>rv_id = 6, rv_teacher = 5, rv_user = 0, rv_username = ''alice'',
         rv_text = ''clear'', rv_createdAt = 7, rv_updatedAt = 7\<rparr>
   \<and> body (fst (postReview anonStore (Some 1) 5 (Some ''strict'') 8)) =
       JReview \<lparr>rv_id = 7, rv_teacher = 5, rv_user = 1, rv_username = ''bob'',
         rv_text = ''strict'', rv_createdAt = 8, rv_updatedAt = 8\<rparr>"
  by code_simp

section \<open>Moderation of teacher images\<close>

lemma getTeachers_store: "snd (getTeachers st tok) = st"
  by (simp add: getTeachers_def Let_def split: option.splits)

lemma getTeacher_store: "snd (getTeacher st tok teacherId) = st"
  by (simp add: getTeacher_def Let_def split: option.splits)

lemma getTeachers_hidden:
  assumes "hideTeacherImages (findOne (\<lambda>_. True) (adminConfigs st))"
    and "body (fst (getTeachers st tok)) = JTeachers ts"
  shows "\<forall>t \<in> set ts. t_imageUrl t = []"
  using assms
  by (auto simp: getTeachers_def Let_def response_defs split: option.splits if_splits)

lemma getTeachers_shown:
  assumes "\<not> hideTeacherImages (findOne (\<lambda>_. True) (adminConfigs st))"
    and "body (fst (getTeachers st tok)) = JTeachers ts"
  shows "set ts \<subseteq> set (teachers st)"
  using assms
  by (auto simp: getTeachers_def Let_def response_defs split: option.splits if_splits)

lemma getTeacher_hidden:
  assumes "hideTeacherImages (findOne (\<lambda>_. True) (adminConfigs st))"
    and "body (fst (getTeacher st tok teacherId)) = JTeacher t"
  shows "t_imageUrl t = []"
  using assms
  by (auto simp: getTeacher_def Let_def response_defs split: option.splits if_splits)

lemma getTeacher_shown:
  assumes "\<not> hideTeacherImages (findOne (\<lambda>_. True) (adminConfigs st))"
    and "body (fst (getTeacher st tok teacherId)) = JTeacher t"
  shows "t \<in> set (teachers st)"
  using assms
  by (auto simp: getTeacher_def Let_def response_defs split: option.splits if_splits
      dest: findOne_SomeD)

lemma putConfig_hide:
  assumes "adminConfigs st \<noteq> []"
  shows "hideTeacherImages (findOne (\<lambda>_. True)
           (adminConfigs (snd (putConfig st True anon (Some True)))))
     \<and> \<not> hideTeacherImages (findOne (\<lambda>_. True)
           (adminConfigs (snd (putConfig st True anon (Some False)))))
     \<and> teachers (snd (putConfig st True anon (Some b))) = teachers st"
proof -
  from assms obtain c cs where "adminConfigs st = c # cs" by (cases "adminConfigs st") auto
  then show ?thesis
    by (cases anon) (simp_all add: putConfig_def findOne_def Let_def hideTeacherImages_def)
qed

lemma getTeachers_ok:
  assumes "auth st tok = Some u" and "u_isSetup u"
  shows "getTeachers st tok =
     (json (JTeachers (map (\<lambda>t. if hideTeacherImages (findOne (\<lambda>_. True) (adminConfigs st))
                                then t\<lparr>t_imageUrl := []\<rparr> else t)
        (filter (\<lambda>t. Some (t_class t) = u_class u) (teachers st)))), st)"
  using assms auth_SomeD[OF assms(1)] by (simp add: getTeachers_def Let_def)

lemma getTeacher_ok:
  assumes "auth st tok \<noteq> None" and "findOne (\<lambda>t. t_id t = teacherId) (teachers st) = Some t"
  shows "getTeacher st tok teacherId =
     (json (JTeacher (if hideTeacherImages (findOne (\<lambda>_. True) (adminConfigs st))
                      then t\<lparr>t_imageUrl := []\<rparr> else t)), st)"
  using assms by (auto simp: getTeacher_def Let_def)

text \<open>
  Claim C6. PUT /api/admin/config with \<open>hideTeacherImages\<close> true sets the flag of the
  stored AdminConfig and leaves the teachers as they are. In every store whose flag is
  set, each teacher in the response of GET /api/teachers and the teacher in the response
  of GET /api/teachers/:teacherId has the empty string as \<open>imageUrl\<close>, and both routes
  leave the store (so every stored \<open>imageUrl\<close>) as it was. The flag is looked up in the
  store the request runs in: the response is computed from the current AdminConfig.
\<close>

theorem C6_hidden_images:
  "(hideTeacherImages (findOne (\<lambda>_. True) (adminConfigs st)) \<longrightarrow>
      (\<forall>ts. body (fst (getTeachers st tok)) = JTeachers ts \<longrightarrow>
         (\<forall>t \<in> set ts. t_imageUrl t = []))
      \<and> (\<forall>t. body (fst (getTeacher st tok teacherId)) = JTeacher t \<longrightarrow> t_imageUrl t = []))
   \<and> snd (getTeachers st tok) = st
   \<and> snd (getTeacher st tok teacherId) = st
   \<and> (auth st tok = Some u \<and> u_isSetup u \<longrightarrow>
        getTeachers st tok =
          (json (JTeachers (map (\<lambda>t. if hideTeacherImages (findOne (\<lambda>_. True) (adminConfigs st))
                                     then t\<lparr>t_imageUrl := []\<rparr> else t)
             (filter (\<lambda>t. Some (t_class t) = u_class u) (teachers st)))), st))
   \<and> (auth st tok \<noteq> None \<and> findOne (\<lambda>t. t_id t = teacherId) (teachers st) = Some x \<longrightarrow>
        getTeacher st tok teacherId =
          (json (JTeacher (if hideTeacherImages (findOne (\<lambda>_. True) (adminConfigs st))
                           then x\<lparr>t_imageUrl := []\<rparr> else x)), st))
   \<and> (adminConfigs st \<noteq> [] \<longrightarrow>
        hideTeacherImages (findOne (\<lambda>_. True)
          (adminConfigs (snd (putConfig st True anon (Some True)))))
        \<and> \<not> hideTeacherImages (findOne (\<lambda>_. True)
          (adminConfigs (snd (putConfig st True anon (Some False)))))
        \<and> teachers (snd (putConfig st True anon (Some b))) = teachers st)"
  using getTeachers_hidden[of st tok] getTeacher_hidden[of st tok teacherId]
    getTeachers_store[of st tok] getTeacher_store[of st tok teacherId]
    getTeachers_ok[of st tok u] getTeacher_ok[of st tok teacherId x]
    putConfig_hide[of st anon b]
  by blast

theorem C6_hidden_images_witness:
  "hideTeacherImages (findOne (\<lambda>_. True) (adminConfigs hiddenStore))
   \<and> body (fst (getTeachers hiddenStore (Some 0))) = JTeachers [msT\<lparr>t_imageUrl := []\<rparr>]
   \<and> list_all (\<lambda>t. t_imageUrl t = []) [msT\<lparr>t_imageUrl := []\<rparr>]
   \<and> body (fst (getTeacher hiddenStore (Some 0) 5)) = JTeacher (msT\<lparr>t_imageUrl := []\<rparr>)
   \<and> t_imageUrl (msT\<lparr>t_imageUrl := []\<rparr>) = []
   \<and> snd (getTeachers hiddenStore (Some 0)) = hiddenStore
   \<and> teachers hiddenStore = [msT] \<and> t_imageUrl msT = ''img''
   \<and> auth hiddenStore (Some 0) = Some (alice\<lparr>u_school := Some 3, u_class := Some 4,
        u_isSetup := True\<rparr>)
   \<and> findOne (\<lambda>t. t_id t = 5) (teachers hiddenStore) = Some msT
   \<and> adminConfigs demoStore \<noteq> []
   \<and> \<not> hideTeacherImages (findOne (\<lambda>_. True) (adminConfigs demoStore))
   \<and> hideTeacherImages (findOne (\<lambda>_. True)
        (adminConfigs (snd (putConfig demoStore True None (Some True)))))
   \<and> teachers (snd (putConfig demoStore True None (Some True))) = teachers demoStore"
proof -
  let ?u = "alice\<lparr>u_school := Some 3, u_class := Some 4, u_isSetup := True\<rparr>"
  let ?t = "msT\<lparr>t_imageUrl := []\<rparr>"
  have a: "hideTeacherImages (findOne (\<lambda>_. True) (adminConfigs hiddenStore))" by code_simp
  have b: "body (fst (getTeachers hiddenStore (Some 0))) = JTeachers [?t]" by code_simp
  have c: "body (fst (getTeacher hiddenStore (Some 0) 5)) = JTeacher ?t" by code_simp
  have d: "teachers hiddenStore = [msT]" by code_simp
  have e: "t_imageUrl msT = ''img''" by code_simp
  have f: "auth hiddenStore (Some 0) = Some ?u" by code_simp
  have g: "findOne (\<lambda>t. t_id t = 5) (teachers hiddenStore) = Some msT" by code_simp
  have h: "adminConfigs demoStore \<noteq> []" by code_simp
  have i: "\<not> hideTeacherImages (findOne (\<lambda>_. True) (adminConfigs demoStore))" by code_simp
  note t = C6_hidden_images[of hiddenStore "Some 0" 5 ?u msT None True]
  note t' = C6_hidden_images[of demoStore "Some 0" 5 ?u msT None True]
  from t a b have "\<forall>t \<in> set [?t]. t_imageUrl t = []" by blast
  then have 1: "list_all (\<lambda>t. t_imageUrl t = []) [?t]" by (simp only: list_all_iff)
  from t a c have 2: "t_imageUrl ?t = []" by blast
  from t have 3: "snd (getTeachers hiddenStore (Some 0)) = hiddenStore" by blast
  from t' h have 4: "hideTeacherImages (findOne (\<lambda>_. True)
        (adminConfigs (snd (putConfig demoStore True None (Some True)))))
     \<and> teachers (snd (putConfig demoStore True None (Some True))) = teachers demoStore"
    by blast
  from a b c d e f g h i 1 2 3 4 show ?thesis by blast
qed

section \<open>Cascading deletes\<close>

text \<open>
  Claim C8. DELETE /api/admin/schools/:schoolId by an admin answers 200; it removes the
  school with that id (identifiers being unique, as in every reachable store), every
  Class and every Teacher whose school reference is that id, and leaves the Reviews and
  the Ratings as they were, including those of the deleted teachers.
\<close>

theorem C8_delete_school:
  "fst (adminDeleteSchool st True schoolId) = json (JMessage ''School deleted successfully'')
   \<and> (wf_store st \<longrightarrow> schools (snd (adminDeleteSchool st True schoolId))
         = filter (\<lambda>s. s_id s \<noteq> schoolId) (schools st))
   \<and> classes (snd (adminDeleteSchool st True schoolId))
         = filter (\<lambda>c. c_school c \<noteq> schoolId) (classes st)
   \<and> teachers (snd (adminDeleteSchool st True schoolId))
         = filter (\<lambda>t. t_school t \<noteq> schoolId) (teachers st)
   \<and> reviews (snd (adminDeleteSchool st True schoolId)) = reviews st
   \<and> ratings (snd (adminDeleteSchool st True schoolId)) = ratings st"
  by (simp add: adminDeleteSchool_def deleteMany_def wf_store_def idsOk_def deleteOne_as_filter)

theorem C8_delete_school_witness:
  "wf_store (run demoStore ratingRequests)
   \<and> schools (snd (adminDeleteSchool (run demoStore ratingRequests) True 3)) = []
   \<and> classes (snd (adminDeleteSchool (run demoStore ratingRequests) True 3)) = []
   \<and> teachers (snd (adminDeleteSchool (run demoStore ratingRequests) True 3)) = []
   \<and> map (\<lambda>r. (rt_teacher r, rt_rating r))
        (ratings (snd (adminDeleteSchool (run demoStore ratingRequests) True 3)))
      = [(5, 5), (5, 3), (5, 4)]"
proof -
  have a: "wf_store (run demoStore ratingRequests)" by code_simp
  have b: "filter (\<lambda>s. s_id s \<noteq> 3) (schools (run demoStore ratingRequests)) = []" by code_simp
  have c: "filter (\<lambda>c. c_school c \<noteq> 3) (classes (run demoStore ratingRequests)) = []"
    by code_simp
  have d: "filter (\<lambda>t. t_school t \<noteq> 3) (teachers (run demoStore ratingRequests)) = []"
    by code_simp
  have e: "map (\<lambda>r. (rt_teacher r, rt_rating r)) (ratings (run demoStore ratingRequests))
      = [(5, 5), (5, 3), (5, 4)]"
    by code_simp
  from C8_delete_school[of "run demoStore ratingRequests" 3] a b c d e
  show ?thesis by simp
qed

section \<open>User setup\<close>

lemma postRating_frame:
  "users (snd (postRating st tok teacherId rating now)) = users st
   \<and> nextId st \<le> nextId (snd (postRating st tok teacherId rating now))
   \<and> schools (snd (postRating st tok teacherId rating now)) = schools st
   \<and> classes (snd (postRating st tok teacherId rating now)) = classes st
   \<and> discussions (snd (postRating st tok teacherId rating now)) = discussions st
   \<and> adminConfigs (snd (postRating st tok teacherId rating now)) = adminConfigs st"
proof (cases "auth st tok")
  case None
  then show ?thesis by (simp add: postRating_def)
next
  case (Some au)
  show ?thesis
  proof (cases "upsertRating st teacherId (u_id au) rating now")
    case (Inl e)
    with Some show ?thesis by (simp add: postRating_def)
  next
    case (Inr p)
    obtain r s where p: "p = (r, s)" by (cases p)
    from Inr p have "users s = users st \<and> nextId st \<le> nextId s \<and> schools s = schools st
        \<and> classes s = classes st \<and> discussions s = discussions st
        \<and> adminConfigs s = adminConfigs st"
      by (auto simp: upsertRating_def Let_def split: option.splits if_splits)
    with Some Inr p show ?thesis
      by (simp add: postRating_def Let_def split: option.splits)
  qed
qed

lemma postSetup_setupFixed:
  assumes "setupFixed uid sch cls st"
  shows "setupFixed uid sch cls (snd (postSetup st tok schoolId classId))"
proof (cases "auth st tok")
  case None
  with assms show ?thesis by (simp add: postSetup_def)
next
  case (Some au)
  show ?thesis
  proof (cases "findOne (\<lambda>u. u_id u = u_id au) (users st)")
    case None
    with Some assms show ?thesis by (simp add: postSetup_def)
  next
    case (Some usr)
    then have usr: "usr \<in> set (users st)" "u_id usr = u_id au" by (auto dest: findOne_SomeD)
    show ?thesis
    proof (cases "u_isSetup usr")
      case True
      with Some \<open>auth st tok = Some au\<close> assms show ?thesis by (simp add: postSetup_def)
    next
      case False
      with usr assms have ne: "u_id usr \<noteq> uid" by (auto simp: setupFixed_def)
      let ?f = "\<lambda>u. u\<lparr>u_school := schoolId, u_class := classId, u_isSetup := True\<rparr>"
      from False Some \<open>auth st tok = Some au\<close>
      have st': "snd (postSetup st tok schoolId classId)
          = st\<lparr>users := updateOne (\<lambda>u. u_id u = u_id usr) ?f (users st)\<rparr>"
        by (simp add: postSetup_def)
      have "\<forall>u \<in> set (updateOne (\<lambda>u. u_id u = u_id usr) ?f (users st)).
            u_id u = uid \<longrightarrow> u_isSetup u \<and> u_school u = sch \<and> u_class u = cls"
        using set_updateOne[of "\<lambda>u. u_id u = u_id usr" ?f "users st"] assms ne
        by (auto simp: setupFixed_def)
      with assms show ?thesis by (simp add: st' setupFixed_def)
    qed
  qed
qed

lemma adminResetPassword_setupFixed:
  assumes "setupFixed uid sch cls st"
  shows "setupFixed uid sch cls (snd (adminResetPassword st a userId newPassword hashed))"
proof -
  have "\<forall>u \<in> set (updateOne (\<lambda>u. u_id u = userId) (\<lambda>u. u\<lparr>u_password := hashed\<rparr>) (users st)).
            u_id u = uid \<longrightarrow> u_isSetup u \<and> u_school u = sch \<and> u_class u = cls"
    using set_updateOne[of "\<lambda>u. u_id u = userId" "\<lambda>u. u\<lparr>u_password := hashed\<rparr>" "users st"] assms
    by (auto simp: setupFixed_def)
  with assms show ?thesis by (simp add: adminResetPassword_def setupFixed_def)
qed

lemma adminDeleteUser_setupFixed:
  assumes "setupFixed uid sch cls st"
  shows "setupFixed uid sch cls (snd (adminDeleteUser st a userId))"
  using assms set_deleteOne[of "\<lambda>u. u_id u = userId" "users st"]
  by (auto simp: adminDeleteUser_def setupFixed_def)

lemma handle_setupFixed:
  assumes "setupFixed uid sch cls st"
  shows "setupFixed uid sch cls (snd (handle st req))"
proof (cases req)
  case (Register x1 x2 x3 x4)
  with assms show ?thesis
    by (auto simp: postRegister_def Let_def setupFixed_def split: option.splits)
next
  case (Setup x1 x2 x3)
  with postSetup_setupFixed[OF assms] show ?thesis by simp
next
  case (PostReview x1 x2 x3 x4)
  with assms show ?thesis
    by (auto simp: postReview_def Let_def setupFixed_def split: option.splits)
next
  case (PutReview x1 x2 x3 x4)
  with assms show ?thesis
    by (simp add: putReview_def Let_def setupFixed_def split: option.splits)
next
  case (PostRating x1 x2 x3 x4)
  with assms postRating_frame[of st x1 x2 x3 x4] show ?thesis
    by (auto simp: setupFixed_def)
next
  case (PostDiscussion x1 x2 x3)
  with assms show ?thesis
    by (auto simp: postDiscussion_def Let_def setupFixed_def split: option.splits)
next
  case (PutConfig x1 x2 x3)
  with assms show ?thesis
    by (simp add: putConfig_def Let_def setupFixed_def split: option.splits)
next
  case (AdminPostSchool x1 x2 x3)
  with assms show ?thesis by (auto simp: adminPostSchool_def Let_def setupFixed_def)
next
  case (AdminDeleteSchool x1 x2)
  with assms show ?thesis by (simp add: adminDeleteSchool_def setupFixed_def)
next
  case (AdminPostClass x1 x2 x3 x4)
  with assms show ?thesis by (auto simp: adminPostClass_def Let_def setupFixed_def)
next
  case (AdminDeleteClass x1 x2)
  with assms show ?thesis by (simp add: adminDeleteClass_def setupFixed_def)
next
  case (AdminPostTeacher x1 x2 x3 x4 x5 x6 x7)
  with assms show ?thesis by (auto simp: adminPostTeacher_def Let_def setupFixed_def)
next
  case (AdminPutTeacher x1 x2 x3 x4 x5)
  with assms show ?thesis
    by (simp add: adminPutTeacher_def setupFixed_def split: option.splits)
next
  case (AdminDeleteTeacher x1 x2)
  with assms show ?thesis by (simp add: adminDeleteTeacher_def setupFixed_def)
next
  case (AdminDeleteReview x1 x2)
  with assms show ?thesis by (simp add: adminDeleteReview_def setupFixed_def)
next
  case (AdminDeleteUser x1 x2)
  with adminDeleteUser_setupFixed[OF assms] show ?thesis by simp
next
  case (AdminResetPassword x1 x2 x3 x4)
  with adminResetPassword_setupFixed[OF assms] show ?thesis by simp
next
  case (AdminPinDiscussion x1 x2)
  with assms show ?thesis
    by (simp add: adminPinDiscussion_def setupFixed_def split: option.splits)
next
  case (AdminDeleteDiscussion x1 x2)
  with assms show ?thesis by (simp add: adminDeleteDiscussion_def setupFixed_def)
qed

lemma run_setupFixed: "setupFixed uid sch cls st \<Longrightarrow> setupFixed uid sch cls (run st reqs)"
  by (induction reqs arbitrary: st) (simp_all add: handle_setupFixed)

lemma setupFixed_postSetup:
  assumes "setupFixed uid sch cls st"
  shows "postSetup st (Some uid) schoolId classId =
      (if auth st (Some uid) = None then unauthenticated
       else status_json 400 (JError ''Setup already completed''), st)"
proof (cases "auth st (Some uid)")
  case None
  then show ?thesis by (simp add: postSetup_def)
next
  case (Some au)
  from auth_SomeD[OF Some] have f: "findOne (\<lambda>x. u_id x = u_id au) (users st) = Some au"
    and i: "u_id au = uid" by simp_all
  from f have "au \<in> set (users st)" by (auto dest: findOne_SomeD)
  with assms i have "u_isSetup au" by (auto simp: setupFixed_def)
  with Some f show ?thesis by (simp add: postSetup_def)
qed

lemma setupFixed_auth:
  assumes "setupFixed uid sch cls st" and "auth st (Some uid) = Some u2"
  shows "u_isSetup u2 \<and> u_school u2 = sch \<and> u_class u2 = cls"
proof -
  from auth_SomeD[OF assms(2)] have "u2 \<in> set (users st)" "u_id u2 = uid"
    by (auto dest: findOne_SomeD)
  with assms(1) show ?thesis by (auto simp: setupFixed_def)
qed

lemma postSetup_first:
  assumes wf: "wf_store st" and au: "auth st tok = Some u" and ns: "\<not> u_isSetup u"
  shows "postSetup st tok sch cls =
      (json (JMessage ''Setup completed successfully''),
       st\<lparr>users := updateOne (\<lambda>x. u_id x = u_id u)
          (\<lambda>x. x\<lparr>u_school := sch, u_class := cls, u_isSetup := True\<rparr>) (users st)\<rparr>)"
    and "auth (snd (postSetup st tok sch cls)) tok =
      Some (u\<lparr>u_school := sch, u_class := cls, u_isSetup := True\<rparr>)"
    and "setupFixed (u_id u) sch cls (snd (postSetup st tok sch cls))"
proof -
  let ?f = "\<lambda>x. x\<lparr>u_school := sch, u_class := cls, u_isSetup := True\<rparr>"
  from auth_SomeD[OF au] have tok: "tok = Some (u_id u)"
    and f: "findOne (\<lambda>x. u_id x = u_id u) (users st) = Some u" by simp_all
  from au f ns show p: "postSetup st tok sch cls =
      (json (JMessage ''Setup completed successfully''),
       st\<lparr>users := updateOne (\<lambda>x. u_id x = u_id u) ?f (users st)\<rparr>)"
    by (simp add: postSetup_def)
  have "findOne (\<lambda>x. u_id x = u_id u) (updateOne (\<lambda>x. u_id x = u_id u) ?f (users st))
      = map_option ?f (findOne (\<lambda>x. u_id x = u_id u) (users st))"
    by (rule findOne_updateOne) simp
  moreover have us: "users (snd (postSetup st tok sch cls))
      = updateOne (\<lambda>x. u_id x = u_id u) ?f (users st)"
    by (simp add: p)
  ultimately show "auth (snd (postSetup st tok sch cls)) tok = Some (?f u)"
    unfolding auth_def us using f by (simp add: tok)
  from wf have d: "distinct (map u_id (users st))" and b: "\<forall>x \<in> set (users st). u_id x < nextId st"
    by (simp_all add: wf_store_def idsOk_def)
  from f have "u \<in> set (users st)" by (auto dest: findOne_SomeD)
  with b have lt: "u_id u < nextId st" by blast
  from d have "updateOne (\<lambda>x. u_id x = u_id u) ?f (users st)
      = map (\<lambda>x. if u_id x = u_id u then ?f x else x) (users st)"
    by (rule updateOne_as_map)
  with lt show "setupFixed (u_id u) sch cls (snd (postSetup st tok sch cls))"
    by (auto simp: p setupFixed_def)
qed

text \<open>
  Claim C4. For a user who is not yet set up, in a store with unique identifiers (as every
  reachable store has), POST /api/setup succeeds and stores the given school and class
  with \<open>isSetup\<close> true. After that, whatever requests the server
  handles in between, every further POST /api/setup with this user's token is refused
  with status 400 (401 once the user has been deleted) and leaves the store as it is, and
  the user keeps the school and the class of the first call.
\<close>

theorem C4_setup_once:
  assumes wf: "wf_store st" and au: "auth st tok = Some u" and ns: "\<not> u_isSetup u"
  shows "fst (postSetup st tok sch cls) = json (JMessage ''Setup completed successfully'')
    \<and> auth (snd (postSetup st tok sch cls)) tok =
        Some (u\<lparr>u_school := sch, u_class := cls, u_isSetup := True\<rparr>)
    \<and> (\<forall>reqs sch' cls'.
          postSetup (run (snd (postSetup st tok sch cls)) reqs) tok sch' cls' =
            (if auth (run (snd (postSetup st tok sch cls)) reqs) tok = None then unauthenticated
             else status_json 400 (JError ''Setup already completed''),
             run (snd (postSetup st tok sch cls)) reqs)
          \<and> (\<forall>u2. auth (run (snd (postSetup st tok sch cls)) reqs) tok = Some u2 \<longrightarrow>
                u_isSetup u2 \<and> u_school u2 = sch \<and> u_class u2 = cls))"
proof -
  note a = postSetup_first[OF wf au ns, of sch cls]
  from auth_SomeD[OF au] have tok: "tok = Some (u_id u)" by simp
  have "postSetup (run (snd (postSetup st tok sch cls)) reqs) tok sch' cls' =
            (if auth (run (snd (postSetup st tok sch cls)) reqs) tok = None then unauthenticated
             else status_json 400 (JError ''Setup already completed''),
             run (snd (postSetup st tok sch cls)) reqs)
          \<and> (\<forall>u2. auth (run (snd (postSetup st tok sch cls)) reqs) tok = Some u2 \<longrightarrow>
                u_isSetup u2 \<and> u_school u2 = sch \<and> u_class u2 = cls)" for reqs sch' cls'
  proof -
    from run_setupFixed[OF a(3)]
    have s: "setupFixed (u_id u) sch cls (run (snd (postSetup st tok sch cls)) reqs)" .
    from setupFixed_postSetup[OF s] setupFixed_auth[OF s] show ?thesis
      unfolding tok by blast
  qed
  with a(1,2) show ?thesis by simp
qed

theorem C4_setup_once_witness:
  "wf_store demoStore \<and> auth demoStore (Some 0) = Some alice \<and> \<not> u_isSetup alice
   \<and> fst (postSetup demoStore (Some 0) (Some 3) (Some 4))
        = json (JMessage ''Setup completed successfully'')
   \<and> auth (run (snd (postSetup demoStore (Some 0) (Some 3) (Some 4)))
        [Setup (Some 0) (Some 8) (Some 9), AdminResetPassword True 0 (Some ''pw'') ''h4''])
        (Some 0)
      = Some (alice\<lparr>u_password := ''h4'', u_school := Some 3, u_class := Some 4,
           u_isSetup := True\<rparr>)
   \<and> postSetup (run (snd (postSetup demoStore (Some 0) (Some 3) (Some 4)))
        [Setup (Some 0) (Some 8) (Some 9), AdminResetPassword True 0 (Some ''pw'') ''h4''])
        (Some 0) (Some 8) (Some 9)
      = (status_json 400 (JError ''Setup already completed''),
         run (snd (postSetup demoStore (Some 0) (Some 3) (Some 4)))
           [Setup (Some 0) (Some 8) (Some 9), AdminResetPassword True 0 (Some ''pw'') ''h4''])"
proof -
  let ?reqs = "[Setup (Some 0) (Some 8) (Some 9), AdminResetPassword True 0 (Some ''pw'') ''h4'']"
  let ?st2 = "run (snd (postSetup demoStore (Some 0) (Some 3) (Some 4))) ?reqs"
  have a: "wf_store demoStore" by code_simp
  have b: "auth demoStore (Some 0) = Some alice" by code_simp
  have c: "\<not> u_isSetup alice" by code_simp
  have d: "auth ?st2 (Some 0)
      = Some (alice\<lparr>u_password := ''h4'', u_school := Some 3, u_class := Some 4,
           u_isSetup := True\<rparr>)"
    by code_simp
  note t = C4_setup_once[OF a b c, of "Some 3" "Some 4"]
  from t have 1: "fst (postSetup demoStore (Some 0) (Some 3) (Some 4))
        = json (JMessage ''Setup completed successfully'')" by blast
  from t have "postSetup ?st2 (Some 0) (Some 8) (Some 9) =
      (if auth ?st2 (Some 0) = None then unauthenticated
       else status_json 400 (JError ''Setup already completed''), ?st2)"
    by blast
  with d have 2: "postSetup ?st2 (Some 0) (Some 8) (Some 9) =
      (status_json 400 (JError ''Setup already completed''), ?st2)"
    by simp
  from a b c d 1 2 show ?thesis by blast
qed

section \<open>Stale aggregates\<close>

lemma set_map_deleteOne: "set (map g (deleteOne P xs)) \<subseteq> set (map g xs)"
  using set_deleteOne[of P xs] by auto

lemma set_map_deleteMany: "set (map g (deleteMany P xs)) \<subseteq> set (map g xs)"
  by (auto simp: deleteMany_def)

lemma handle_aggregates:
  assumes "\<forall>tok teacherId rating now. req \<noteq> PostRating tok teacherId rating now"
  shows "set (aggregates (snd (handle st req))) \<subseteq> set (aggregates st) \<union> {(nextId st, 0, 0)}"
proof (cases req)
  case (Register x1 x2 x3 x4)
  then show ?thesis by (auto simp: postRegister_def Let_def aggregates_def split: option.splits)
next
  case (Setup x1 x2 x3)
  then show ?thesis by (auto simp: postSetup_def Let_def aggregates_def split: option.splits)
next
  case (PostReview x1 x2 x3 x4)
  then show ?thesis by (auto simp: postReview_def Let_def aggregates_def split: option.splits)
next
  case (PutReview x1 x2 x3 x4)
  then show ?thesis by (auto simp: putReview_def Let_def aggregates_def split: option.splits)
next
  case (PostRating x1 x2 x3 x4)
  with assms show ?thesis by simp
next
  case (PostDiscussion x1 x2 x3)
  then show ?thesis by (auto simp: postDiscussion_def Let_def aggregates_def split: option.splits)
next
  case (PutConfig x1 x2 x3)
  then show ?thesis by (auto simp: putConfig_def Let_def aggregates_def split: option.splits)
next
  case (AdminPostSchool x1 x2 x3)
  then show ?thesis by (auto simp: adminPostSchool_def Let_def aggregates_def)
next
  case (AdminDeleteSchool x1 x2)
  then show ?thesis
    using set_map_deleteMany[of "\<lambda>t. (t_id t, t_averageRating t, t_totalRatings t)"
        "\<lambda>t. t_school t = x2" "teachers st"]
    by (auto simp: adminDeleteSchool_def aggregates_def)
next
  case (AdminPostClass x1 x2 x3 x4)
  then show ?thesis by (auto simp: adminPostClass_def Let_def aggregates_def)
next
  case (AdminDeleteClass x1 x2)
  then show ?thesis
    using set_map_deleteMany[of "\<lambda>t. (t_id t, t_averageRating t, t_totalRatings t)"
        "\<lambda>t. t_class t = x2" "teachers st"]
    by (auto simp: adminDeleteClass_def aggregates_def)
next
  case (AdminPostTeacher x1 x2 x3 x4 x5 x6 x7)
  then show ?thesis by (auto simp: adminPostTeacher_def Let_def aggregates_def)
next
  case (AdminPutTeacher x1 x2 x3 x4 x5)
  have m: "aggregates (st\<lparr>teachers := updateOne (\<lambda>t. t_id t = x2) (putTeacherFields x3 x4 x5)
      (teachers st)\<rparr>) = aggregates st"
    unfolding aggregates_def by (simp add: map_updateOne putTeacherFields_def)
  have "snd (handle st req) = st \<or> snd (handle st req) =
      st\<lparr>teachers := updateOne (\<lambda>t. t_id t = x2) (putTeacherFields x3 x4 x5) (teachers st)\<rparr>"
    using AdminPutTeacher by (simp add: adminPutTeacher_def split: option.splits)
  with m show ?thesis by auto
next
  case (AdminDeleteTeacher x1 x2)
  then show ?thesis
    using set_map_deleteOne[of "\<lambda>t. (t_id t, t_averageRating t, t_totalRatings t)"
        "\<lambda>t. t_id t = x2" "teachers st"]
    by (auto simp: adminDeleteTeacher_def aggregates_def)
next
  case (AdminDeleteReview x1 x2)
  then show ?thesis by (auto simp: adminDeleteReview_def aggregates_def)
next
  case (AdminDeleteUser x1 x2)
  then show ?thesis by (auto simp: adminDeleteUser_def aggregates_def)
next
  case (AdminResetPassword x1 x2 x3 x4)
  then show ?thesis by (auto simp: adminResetPassword_def aggregates_def)
next
  case (AdminPinDiscussion x1 x2)
  then show ?thesis by (auto simp: adminPinDiscussion_def aggregates_def split: option.splits)
next
  case (AdminDeleteDiscussion x1 x2)
  then show ?thesis by (auto simp: adminDeleteDiscussion_def aggregates_def)
qed

lemma adminDeleteUser_frame:
  "teachers (snd (adminDeleteUser st a userId)) = teachers st
   \<and> (a \<longrightarrow> ratings (snd (adminDeleteUser st a userId))
         = filter (\<lambda>r. rt_user r \<noteq> userId) (ratings st))"
  by (simp add: adminDeleteUser_def deleteMany_def)

lemma adminDeleteSchool_frame:
  "ratings (snd (adminDeleteSchool st a schoolId)) = ratings st
   \<and> (a \<longrightarrow> teachers (snd (adminDeleteSchool st a schoolId))
         = filter (\<lambda>t. t_school t \<noteq> schoolId) (teachers st))"
  by (simp add: adminDeleteSchool_def deleteMany_def)

text \<open>
  Claim C9. DELETE /api/admin/users/:userId removes the user's ratings and leaves every
  teacher document as it is; DELETE /api/admin/schools/:schoolId removes teachers and
  leaves every rating and every surviving teacher as it is. No route other than
  POST /api/teachers/:teacherId/ratings changes the aggregate of an existing teacher (a
  new teacher starts at 0 and 0). So a stored aggregate can be stale: after the three
  ratings 5, 3, 4 and the deletion of the first rater, teacher 5 still carries average 4
  and count 3 while its remaining ratings are 3 and 4, with mean 7/2.
\<close>

theorem C9_stale_aggregates:
  "teachers (snd (adminDeleteUser st a userId)) = teachers st
   \<and> (a \<longrightarrow> ratings (snd (adminDeleteUser st a userId))
         = filter (\<lambda>r. rt_user r \<noteq> userId) (ratings st))
   \<and> ratings (snd (adminDeleteSchool st a schoolId)) = ratings st
   \<and> (a \<longrightarrow> teachers (snd (adminDeleteSchool st a schoolId))
         = filter (\<lambda>t. t_school t \<noteq> schoolId) (teachers st))
   \<and> ((\<forall>tok teacherId rating now. req \<noteq> PostRating tok teacherId rating now) \<longrightarrow>
        set (aggregates (snd (handle st req))) \<subseteq> set (aggregates st) \<union> {(nextId st, 0, 0)})
   \<and> aggregates staleStore = [(5, 4, 3)]
   \<and> map rt_rating (filter (\<lambda>r. rt_teacher r = 5) (ratings staleStore)) = [3, 4]
   \<and> avgRating (filter (\<lambda>r. rt_teacher r = 5) (ratings staleStore)) = Some (7 / 2)"
proof -
  have "aggregates staleStore = [(5, 4, 3)]
     \<and> map rt_rating (filter (\<lambda>r. rt_teacher r = 5) (ratings staleStore)) = [3, 4]
     \<and> avgRating (filter (\<lambda>r. rt_teacher r = 5) (ratings staleStore)) = Some (7 / 2)"
    by code_simp
  with adminDeleteUser_frame[of st a userId] adminDeleteSchool_frame[of st a schoolId]
    handle_aggregates[of req st]
  show ?thesis by blast
qed

theorem C9_stale_aggregates_witness:
  "(\<forall>tok teacherId rating now. AdminDeleteUser True 0 \<noteq> PostRating tok teacherId rating now)
   \<and> set (aggregates (snd (handle (run demoStore ratingRequests) (AdminDeleteUser True 0))))
       \<subseteq> set (aggregates (run demoStore ratingRequests))
          \<union> {(nextId (run demoStore ratingRequests), 0, 0)}
   \<and> aggregates (run demoStore ratingRequests) = [(5, 4, 3)]
   \<and> ratings (snd (adminDeleteUser (run demoStore ratingRequests) True 0))
       = filter (\<lambda>r. rt_user r \<noteq> 0) (ratings (run demoStore ratingRequests))
   \<and> teachers (snd (adminDeleteSchool (run demoStore ratingRequests) True 3))
       = filter (\<lambda>t. t_school t \<noteq> 3) (teachers (run demoStore ratingRequests))
   \<and> map rt_rating (ratings (snd (adminDeleteSchool (run demoStore ratingRequests) True 3)))
       = [5, 3, 4]"
proof -
  have a: "\<forall>tok teacherId rating now.
      AdminDeleteUser True 0 \<noteq> PostRating tok teacherId rating now"
    by simp
  have b: "aggregates (run demoStore ratingRequests) = [(5, 4, 3)]" by code_simp
  have c: "map rt_rating (ratings (run demoStore ratingRequests)) = [5, 3, 4]" by code_simp
  note t = C9_stale_aggregates[of "run demoStore ratingRequests" True 0 3
      "AdminDeleteUser True 0"]
  from t a have 1: "set (aggregates (snd (handle (run demoStore ratingRequests)
        (AdminDeleteUser True 0))))
       \<subseteq> set (aggregates (run demoStore ratingRequests))
          \<union> {(nextId (run demoStore ratingRequests), 0, 0)}"
    by blast
  from t have 2: "ratings (snd (adminDeleteUser (run demoStore ratingRequests) True 0))
       = filter (\<lambda>r. rt_user r \<noteq> 0) (ratings (run demoStore ratingRequests))"
    by blast
  from t have 3: "teachers (snd (adminDeleteSchool (run demoStore ratingRequests) True 3))
       = filter (\<lambda>t. t_school t \<noteq> 3) (teachers (run demoStore ratingRequests))"
    by blast
  from t c have 4: "map rt_rating (ratings (snd (adminDeleteSchool
        (run demoStore ratingRequests) True 3))) = [5, 3, 4]"
    by simp
  from a b 1 2 3 4 show ?thesis by blast
qed

end
